theory Spec2Isabelle
  imports Main
begin

section \<open>Data model of the MovieRec database setup script\<close>

text \<open>
  The program is the SQL script that creates the tables \<open>profiles\<close>, \<open>reviews\<close> and
  \<open>user_lists\<close>, enables row level security on them, declares their policies, installs
  the trigger \<open>on_auth_user_created\<close> and grants table privileges. Its meaning is the
  behaviour PostgreSQL gives these statements, which the definitions below write out:
  a table is the list of its rows, a statement takes the database and returns an error
  or the new database, and either everything a statement does is committed or nothing.

  A \<open>UUID\<close> is a natural number, \<open>TEXT\<close> a string, \<open>INTEGER\<close> an integer, a timestamp a
  natural number; a column that may hold \<open>NULL\<close> has an option type, a \<open>NOT NULL\<close>
  column does not.
\<close>

type_synonym uuid = nat
type_synonym timestamp = nat

text \<open>The three columns of \<open>auth.users\<close> the script reads: \<open>id\<close>, \<open>email\<close> and
  \<open>raw_user_meta_data->>'username'\<close>.\<close>

record auth_user =
  au_id :: uuid
  au_email :: "string option"
  au_meta_username :: "string option"

record profile =
  p_id :: uuid
  p_username :: "string option"
  p_avatar_url :: "string option"
  p_created_at :: "timestamp option"
  p_updated_at :: "timestamp option"

record review =
  r_id :: uuid
  r_user_id :: uuid
  r_media_type :: string
  r_media_id :: string
  r_rating :: int
  r_review_text :: "string option"
  r_created_at :: "timestamp option"
  r_updated_at :: "timestamp option"

record list_item =
  l_id :: uuid
  l_user_id :: uuid
  l_list_type :: string
  l_media_type :: string
  l_media_id :: string
  l_title :: string
  l_image_url :: "string option"
  l_created_at :: "timestamp option"

datatype db_role = RoleAnon | RoleAuthenticated | RoleService

datatype table_name = Profiles | Reviews | UserLists

text \<open>The database: the rows of \<open>auth.users\<close> and of the three tables, and the table
  privileges (a pair \<open>(role, table)\<close> stands for \<open>GRANT ALL ON table TO role\<close>).\<close>

record database =
  users :: "auth_user list"
  profiles :: "profile list"
  reviews :: "review list"
  user_lists :: "list_item list"
  grants :: "(db_role \<times> table_name) list"

text \<open>SQLSTATE 23505, 23514, 23503 and 42501. PostgreSQL reports both a missing table
  privilege and a row refused by a \<open>WITH CHECK\<close> policy as 42501.\<close>

datatype error = UniqueViolation | CheckViolation | ForeignKeyViolation | AuthorizationDenied

text \<open>Who issues a statement: a request without a session (role \<open>anon\<close>), a signed-in
  identity (role \<open>authenticated\<close>, \<open>auth.uid()\<close> is its id) or the backend's service key
  (role \<open>service_role\<close>, which is not subject to row level security).\<close>

datatype caller = Anonymous | Identity uuid | Service

fun role_of :: "caller \<Rightarrow> db_role" where
  "role_of Anonymous = RoleAnon"
| "role_of (Identity u) = RoleAuthenticated"
| "role_of Service = RoleService"

fun auth_uid :: "caller \<Rightarrow> uuid option" where
  "auth_uid Anonymous = None"
| "auth_uid (Identity u) = Some u"
| "auth_uid Service = None"

fun bypass_rls :: "caller \<Rightarrow> bool" where
  "bypass_rls Anonymous = False"
| "bypass_rls (Identity u) = False"
| "bypass_rls Service = True"

definition has_privilege :: "database \<Rightarrow> caller \<Rightarrow> table_name \<Rightarrow> bool" where
  "has_privilege db c t = ((role_of c, t) \<in> set (grants db))"

subsection \<open>Column constraints\<close>

definition media_type_ok :: "string \<Rightarrow> bool" where
  "media_type_ok mt = (mt \<in> set [''movie'', ''book'', ''show''])"

definition rating_ok :: "int \<Rightarrow> bool" where
  "rating_ok n = (n \<ge> 1 \<and> n \<le> 10)"

definition list_type_ok :: "string \<Rightarrow> bool" where
  "list_type_ok lt = (lt \<in> set [''watchlist'', ''favorites'', ''reading_list'', ''completed''])"

definition reviews_check :: "review \<Rightarrow> bool" where
  "reviews_check r = (media_type_ok (r_media_type r) \<and> rating_ok (r_rating r))"

definition user_lists_check :: "list_item \<Rightarrow> bool" where
  "user_lists_check l = (list_type_ok (l_list_type l) \<and> media_type_ok (l_media_type l))"

text \<open>\<open>PRIMARY KEY\<close> and \<open>UNIQUE\<close>: a new row conflicts with a stored one that has the
  same key. A \<open>NULL\<close> is distinct from every value, another \<open>NULL\<close> included, so only a
  username that is set can conflict.\<close>

definition profiles_conflict :: "profile list \<Rightarrow> profile \<Rightarrow> bool" where
  "profiles_conflict ps p =
     (\<exists>q \<in> set ps. p_id q = p_id p \<or> (p_username p \<noteq> None \<and> p_username q = p_username p))"

definition reviews_conflict :: "review list \<Rightarrow> review \<Rightarrow> bool" where
  "reviews_conflict rs r =
     (\<exists>q \<in> set rs. r_id q = r_id r \<or>
        (r_user_id q = r_user_id r \<and> r_media_type q = r_media_type r \<and> r_media_id q = r_media_id r))"

definition user_lists_conflict :: "list_item list \<Rightarrow> list_item \<Rightarrow> bool" where
  "user_lists_conflict ls l =
     (\<exists>q \<in> set ls. l_id q = l_id l \<or>
        (l_user_id q = l_user_id l \<and> l_list_type q = l_list_type l \<and>
         l_media_type q = l_media_type l \<and> l_media_id q = l_media_id l))"

text \<open>\<open>REFERENCES auth.users(id)\<close>.\<close>

definition user_exists :: "database \<Rightarrow> uuid \<Rightarrow> bool" where
  "user_exists db u = (\<exists>a \<in> set (users db). au_id a = u)"

subsection \<open>Row level security policies\<close>

text \<open>One definition for each \<open>CREATE POLICY\<close>, named after its table and command. An
  equality with \<open>auth.uid()\<close> is not true when \<open>auth.uid()\<close> is \<open>NULL\<close>. Row level security
  is enabled on all three tables, so a command with no policy admits no row:
  \<open>profiles\<close> has no policy for \<open>DELETE\<close>.\<close>

definition profiles_select_policy :: "caller \<Rightarrow> profile \<Rightarrow> bool" where
  "profiles_select_policy c p = True"

definition profiles_update_policy :: "caller \<Rightarrow> profile \<Rightarrow> bool" where
  "profiles_update_policy c p = (auth_uid c = Some (p_id p))"

definition profiles_insert_policy :: "caller \<Rightarrow> profile \<Rightarrow> bool" where
  "profiles_insert_policy c p = (auth_uid c = Some (p_id p))"

definition profiles_delete_policy :: "caller \<Rightarrow> profile \<Rightarrow> bool" where
  "profiles_delete_policy c p = False"

definition reviews_select_policy :: "caller \<Rightarrow> review \<Rightarrow> bool" where
  "reviews_select_policy c r = True"

definition reviews_insert_policy :: "caller \<Rightarrow> review \<Rightarrow> bool" where
  "reviews_insert_policy c r = (auth_uid c = Some (r_user_id r))"

definition reviews_update_policy :: "caller \<Rightarrow> review \<Rightarrow> bool" where
  "reviews_update_policy c r = (auth_uid c = Some (r_user_id r))"

definition reviews_delete_policy :: "caller \<Rightarrow> review \<Rightarrow> bool" where
  "reviews_delete_policy c r = (auth_uid c = Some (r_user_id r))"

definition user_lists_select_policy :: "caller \<Rightarrow> list_item \<Rightarrow> bool" where
  "user_lists_select_policy c l = (auth_uid c = Some (l_user_id l))"

definition user_lists_insert_policy :: "caller \<Rightarrow> list_item \<Rightarrow> bool" where
  "user_lists_insert_policy c l = (auth_uid c = Some (l_user_id l))"

definition user_lists_update_policy :: "caller \<Rightarrow> list_item \<Rightarrow> bool" where
  "user_lists_update_policy c l = (auth_uid c = Some (l_user_id l))"

definition user_lists_delete_policy :: "caller \<Rightarrow> list_item \<Rightarrow> bool" where
  "user_lists_delete_policy c l = (auth_uid c = Some (l_user_id l))"

text \<open>A policy applies to a caller unless the caller's role bypasses row level security.\<close>

definition admits :: "caller \<Rightarrow> bool \<Rightarrow> bool" where
  "admits c policy = (bypass_rls c \<or> policy)"

section \<open>Statements\<close>

text \<open>
  PostgreSQL checks, in this order: the table privilege of the role; for an \<open>INSERT\<close>
  the \<open>WITH CHECK\<close> policy on the new row; the \<open>CHECK\<close> constraints; the unique indexes;
  the foreign keys. A \<open>USING\<close> policy is different: \<open>SELECT\<close>, \<open>UPDATE\<close> and \<open>DELETE\<close>
  simply do not see a row it refuses, and raise nothing. An \<open>UPDATE\<close> policy with no
  \<open>WITH CHECK\<close> of its own applies its \<open>USING\<close> expression to the new row as well, and
  there a refusal is an error.

  \<open>UPDATE\<close> and \<open>DELETE\<close> address a row by its primary key (\<open>WHERE id = ...\<close>) and return
  the number of rows they changed. \<open>UPDATE\<close> takes the row as it is to be afterwards.
\<close>

fun replace1 :: "'a \<Rightarrow> 'a \<Rightarrow> 'a list \<Rightarrow> 'a list" where
  "replace1 old new [] = []"
| "replace1 old new (x # xs) = (if x = old then new # xs else x # replace1 old new xs)"

subsection \<open>\<open>reviews\<close>\<close>

definition select_reviews :: "database \<Rightarrow> caller \<Rightarrow> error + review list" where
  "select_reviews db c =
     (if \<not> has_privilege db c Reviews then Inl AuthorizationDenied
      else Inr (filter (\<lambda>r. admits c (reviews_select_policy c r)) (reviews db)))"

definition insert_review :: "database \<Rightarrow> caller \<Rightarrow> review \<Rightarrow> error + database" where
  "insert_review db c r =
     (if \<not> has_privilege db c Reviews then Inl AuthorizationDenied
      else if \<not> admits c (reviews_insert_policy c r) then Inl AuthorizationDenied
      else if \<not> reviews_check r then Inl CheckViolation
      else if reviews_conflict (reviews db) r then Inl UniqueViolation
      else if \<not> user_exists db (r_user_id r) then Inl ForeignKeyViolation
      else Inr (db\<lparr>reviews := reviews db @ [r]\<rparr>))"

definition update_review :: "database \<Rightarrow> caller \<Rightarrow> uuid \<Rightarrow> review \<Rightarrow> error + nat \<times> database" where
  "update_review db c rid new =
     (if \<not> has_privilege db c Reviews then Inl AuthorizationDenied
      else case find (\<lambda>r. r_id r = rid \<and> admits c (reviews_update_policy c r)) (reviews db) of
        None \<Rightarrow> Inr (0, db)
      | Some old \<Rightarrow>
          if \<not> admits c (reviews_update_policy c new) then Inl AuthorizationDenied
          else if \<not> reviews_check new then Inl CheckViolation
          else if reviews_conflict (remove1 old (reviews db)) new then Inl UniqueViolation
          else if r_user_id new \<noteq> r_user_id old \<and> \<not> user_exists db (r_user_id new)
            then Inl ForeignKeyViolation
          else Inr (1, db\<lparr>reviews := replace1 old new (reviews db)\<rparr>))"

definition delete_review :: "database \<Rightarrow> caller \<Rightarrow> uuid \<Rightarrow> error + nat \<times> database" where
  "delete_review db c rid =
     (if \<not> has_privilege db c Reviews then Inl AuthorizationDenied
      else Inr (length (filter (\<lambda>r. r_id r = rid \<and> admits c (reviews_delete_policy c r)) (reviews db)),
                db\<lparr>reviews := filter (\<lambda>r. \<not> (r_id r = rid \<and> admits c (reviews_delete_policy c r)))
                                  (reviews db)\<rparr>))"

subsection \<open>\<open>user_lists\<close>\<close>

definition select_user_lists :: "database \<Rightarrow> caller \<Rightarrow> error + list_item list" where
  "select_user_lists db c =
     (if \<not> has_privilege db c UserLists then Inl AuthorizationDenied
      else Inr (filter (\<lambda>l. admits c (user_lists_select_policy c l)) (user_lists db)))"

definition insert_list_item :: "database \<Rightarrow> caller \<Rightarrow> list_item \<Rightarrow> error + database" where
  "insert_list_item db c l =
     (if \<not> has_privilege db c UserLists then Inl AuthorizationDenied
      else if \<not> admits c (user_lists_insert_policy c l) then Inl AuthorizationDenied
      else if \<not> user_lists_check l then Inl CheckViolation
      else if user_lists_conflict (user_lists db) l then Inl UniqueViolation
      else if \<not> user_exists db (l_user_id l) then Inl ForeignKeyViolation
      else Inr (db\<lparr>user_lists := user_lists db @ [l]\<rparr>))"

definition update_list_item :: "database \<Rightarrow> caller \<Rightarrow> uuid \<Rightarrow> list_item \<Rightarrow> error + nat \<times> database" where
  "update_list_item db c lid new =
     (if \<not> has_privilege db c UserLists then Inl AuthorizationDenied
      else case find (\<lambda>l. l_id l = lid \<and> admits c (user_lists_update_policy c l)) (user_lists db) of
        None \<Rightarrow> Inr (0, db)
      | Some old \<Rightarrow>
          if \<not> admits c (user_lists_update_policy c new) then Inl AuthorizationDenied
          else if \<not> user_lists_check new then Inl CheckViolation
          else if user_lists_conflict (remove1 old (user_lists db)) new then Inl UniqueViolation
          else if l_user_id new \<noteq> l_user_id old \<and> \<not> user_exists db (l_user_id new)
            then Inl ForeignKeyViolation
          else Inr (1, db\<lparr>user_lists := replace1 old new (user_lists db)\<rparr>))"

definition delete_list_item :: "database \<Rightarrow> caller \<Rightarrow> uuid \<Rightarrow> error + nat \<times> database" where
  "delete_list_item db c lid =
     (if \<not> has_privilege db c UserLists then Inl AuthorizationDenied
      else Inr (length (filter (\<lambda>l. l_id l = lid \<and> admits c (user_lists_delete_policy c l)) (user_lists db)),
                db\<lparr>user_lists := filter (\<lambda>l. \<not> (l_id l = lid \<and> admits c (user_lists_delete_policy c l)))
                                     (user_lists db)\<rparr>))"

subsection \<open>\<open>profiles\<close>\<close>

definition select_profiles :: "database \<Rightarrow> caller \<Rightarrow> error + profile list" where
  "select_profiles db c =
     (if \<not> has_privilege db c Profiles then Inl AuthorizationDenied
      else Inr (filter (\<lambda>p. admits c (profiles_select_policy c p)) (profiles db)))"

definition insert_profile :: "database \<Rightarrow> caller \<Rightarrow> profile \<Rightarrow> error + database" where
  "insert_profile db c p =
     (if \<not> has_privilege db c Profiles then Inl AuthorizationDenied
      else if \<not> admits c (profiles_insert_policy c p) then Inl AuthorizationDenied
      else if profiles_conflict (profiles db) p then Inl UniqueViolation
      else if \<not> user_exists db (p_id p) then Inl ForeignKeyViolation
      else Inr (db\<lparr>profiles := profiles db @ [p]\<rparr>))"

definition update_profile :: "database \<Rightarrow> caller \<Rightarrow> uuid \<Rightarrow> profile \<Rightarrow> error + nat \<times> database" where
  "update_profile db c pid new =
     (if \<not> has_privilege db c Profiles then Inl AuthorizationDenied
      else case find (\<lambda>p. p_id p = pid \<and> admits c (profiles_update_policy c p)) (profiles db) of
        None \<Rightarrow> Inr (0, db)
      | Some old \<Rightarrow>
          if \<not> admits c (profiles_update_policy c new) then Inl AuthorizationDenied
          else if profiles_conflict (remove1 old (profiles db)) new then Inl UniqueViolation
          else if p_id new \<noteq> p_id old \<and> \<not> user_exists db (p_id new) then Inl ForeignKeyViolation
          else Inr (1, db\<lparr>profiles := replace1 old new (profiles db)\<rparr>))"

definition delete_profile :: "database \<Rightarrow> caller \<Rightarrow> uuid \<Rightarrow> error + nat \<times> database" where
  "delete_profile db c pid =
     (if \<not> has_privilege db c Profiles then Inl AuthorizationDenied
      else Inr (length (filter (\<lambda>p. p_id p = pid \<and> admits c (profiles_delete_policy c p)) (profiles db)),
                db\<lparr>profiles := filter (\<lambda>p. \<not> (p_id p = pid \<and> admits c (profiles_delete_policy c p)))
                                   (profiles db)\<rparr>))"

subsection \<open>Identities: the trigger \<open>on_auth_user_created\<close> and the cascade\<close>

definition coalesce :: "'a option \<Rightarrow> 'a option \<Rightarrow> 'a option" where
  "coalesce a b = (case a of Some x \<Rightarrow> Some x | None \<Rightarrow> b)"

text \<open>\<open>split_part(s, d, 1)\<close> for a delimiter of one character: the text of \<open>s\<close> up to
  the first \<open>d\<close>, all of \<open>s\<close> when \<open>d\<close> does not occur.\<close>

definition split_part_1 :: "string \<Rightarrow> char \<Rightarrow> string" where
  "split_part_1 s d = takeWhile (\<lambda>x. x \<noteq> d) s"

text \<open>The trigger function. It is \<open>SECURITY DEFINER\<close>: its \<open>INSERT\<close> runs as the owner
  of the tables, whom neither privileges nor policies restrict; the constraints of
  \<open>profiles\<close> apply as to everyone. \<open>updated_at\<close> takes its default, \<open>NOW()\<close>.\<close>

definition handle_new_user :: "database \<Rightarrow> auth_user \<Rightarrow> timestamp \<Rightarrow> error + database" where
  "handle_new_user db new now =
     (let p = \<lparr>p_id = au_id new,
               p_username = coalesce (au_meta_username new)
                              (map_option (\<lambda>e. split_part_1 e CHR ''@'') (au_email new)),
               p_avatar_url = None,
               p_created_at = Some now,
               p_updated_at = Some now\<rparr>
      in if profiles_conflict (profiles db) p then Inl UniqueViolation
         else if \<not> user_exists db (p_id p) then Inl ForeignKeyViolation
         else Inr (db\<lparr>profiles := profiles db @ [p]\<rparr>))"

text \<open>The identity provider's \<open>INSERT INTO auth.users\<close>. The trigger fires
  \<open>AFTER INSERT ... FOR EACH ROW\<close> inside the same statement, so an error it raises is
  the error of the statement, and the new row of \<open>auth.users\<close> goes with it.\<close>

definition insert_auth_user :: "database \<Rightarrow> auth_user \<Rightarrow> timestamp \<Rightarrow> error + database" where
  "insert_auth_user db new now =
     (if user_exists db (au_id new) then Inl UniqueViolation
      else handle_new_user (db\<lparr>users := users db @ [new]\<rparr>) new now)"

text \<open>The identity provider's \<open>DELETE FROM auth.users WHERE id = u\<close>: the three foreign
  keys are \<open>ON DELETE CASCADE\<close>, so the statement removes the referencing rows too.\<close>

definition delete_auth_user :: "database \<Rightarrow> uuid \<Rightarrow> database" where
  "delete_auth_user db u =
     db\<lparr>users := filter (\<lambda>a. au_id a \<noteq> u) (users db),
        profiles := filter (\<lambda>p. p_id p \<noteq> u) (profiles db),
        reviews := filter (\<lambda>r. r_user_id r \<noteq> u) (reviews db),
        user_lists := filter (\<lambda>l. l_user_id l \<noteq> u) (user_lists db)\<rparr>"

section \<open>Histories\<close>

text \<open>Every statement that writes, by whoever issues it. A statement that raises an
  error leaves the database as it was.\<close>

datatype action =
    CreateUser auth_user timestamp
  | DeleteUser uuid
  | InsertProfile caller profile
  | UpdateProfile caller uuid profile
  | DeleteProfile caller uuid
  | InsertReview caller review
  | UpdateReview caller uuid review
  | DeleteReview caller uuid
  | InsertListItem caller list_item
  | UpdateListItem caller uuid list_item
  | DeleteListItem caller uuid

definition committed :: "database \<Rightarrow> error + database \<Rightarrow> database" where
  "committed db res = (case res of Inl e \<Rightarrow> db | Inr db' \<Rightarrow> db')"

definition committed_count :: "database \<Rightarrow> error + nat \<times> database \<Rightarrow> database" where
  "committed_count db res = (case res of Inl e \<Rightarrow> db | Inr (n, db') \<Rightarrow> db')"

fun exec :: "database \<Rightarrow> action \<Rightarrow> database" where
  "exec db (CreateUser a now) = committed db (insert_auth_user db a now)"
| "exec db (DeleteUser u) = delete_auth_user db u"
| "exec db (InsertProfile c p) = committed db (insert_profile db c p)"
| "exec db (UpdateProfile c pid p) = committed_count db (update_profile db c pid p)"
| "exec db (DeleteProfile c pid) = committed_count db (delete_profile db c pid)"
| "exec db (InsertReview c r) = committed db (insert_review db c r)"
| "exec db (UpdateReview c rid r) = committed_count db (update_review db c rid r)"
| "exec db (DeleteReview c rid) = committed_count db (delete_review db c rid)"
| "exec db (InsertListItem c l) = committed db (insert_list_item db c l)"
| "exec db (UpdateListItem c lid l) = committed_count db (update_list_item db c lid l)"
| "exec db (DeleteListItem c lid) = committed_count db (delete_list_item db c lid)"

fun run :: "database \<Rightarrow> action list \<Rightarrow> database" where
  "run db [] = db"
| "run db (a # as) = run (exec db a) as"

text \<open>The table privileges the script grants, and the database right after the script
  has run on a platform where the privileges \<open>pre\<close> and the identities \<open>us\<close> were there
  before: the three tables are new and empty, and the script inserts no profile for an
  identity that exists already. Access to the schema \<open>public\<close> itself is not modelled:
  every role is taken to have it.\<close>

definition script_grants :: "(db_role \<times> table_name) list" where
  "script_grants =
     [(RoleAuthenticated, Profiles), (RoleAuthenticated, Reviews), (RoleAuthenticated, UserLists),
      (RoleService, Profiles), (RoleService, Reviews), (RoleService, UserLists)]"

definition script_db :: "(db_role \<times> table_name) list \<Rightarrow> auth_user list \<Rightarrow> database" where
  "script_db pre us =
     \<lparr>users = us, profiles = [], reviews = [], user_lists = [], grants = pre @ script_grants\<rparr>"

text \<open>A \<open>DELETE\<close> on \<open>profiles\<close> that row level security does not govern.\<close>

fun unrestricted_profile_delete :: "action \<Rightarrow> bool" where
  "unrestricted_profile_delete (DeleteProfile c pid) = bypass_rls c"
| "unrestricted_profile_delete a = False"

subsection \<open>Invariants: provisioning and the foreign keys\<close>

definition provisioned :: "database \<Rightarrow> bool" where
  "provisioned db =
     (\<forall>a \<in> set (users db). length (filter (\<lambda>p. p_id p = au_id a) (profiles db)) = 1)"

definition no_orphans :: "database \<Rightarrow> bool" where
  "no_orphans db =
     ((\<forall>p \<in> set (profiles db). user_exists db (p_id p))
      \<and> (\<forall>r \<in> set (reviews db). user_exists db (r_user_id r))
      \<and> (\<forall>l \<in> set (user_lists db). user_exists db (l_user_id l)))"

section \<open>Sample data\<close>

definition alice :: auth_user where
  "alice = \<lparr>au_id = 1, au_email = Some ''alice@example.com'', au_meta_username = None\<rparr>"

definition bob :: auth_user where
  "bob = \<lparr>au_id = 2, au_email = Some ''bob@example.com'', au_meta_username = Some ''bobby''\<rparr>"

definition alice_profile :: profile where
  "alice_profile = \<lparr>p_id = 1, p_username = Some ''alice'', p_avatar_url = None,
                    p_created_at = Some 100, p_updated_at = Some 100\<rparr>"

definition bob_profile :: profile where
  "bob_profile = \<lparr>p_id = 2, p_username = Some ''bobby'', p_avatar_url = None,
                  p_created_at = Some 101, p_updated_at = Some 101\<rparr>"

definition alice_review :: review where
  "alice_review = \<lparr>r_id = 10, r_user_id = 1, r_media_type = ''movie'', r_media_id = ''27205'',
                   r_rating = 8, r_review_text = None,
                   r_created_at = Some 110, r_updated_at = Some 110\<rparr>"

definition alice_watch :: list_item where
  "alice_watch = \<lparr>l_id = 20, l_user_id = 1, l_list_type = ''watchlist'', l_media_type = ''movie'',
                  l_media_id = ''27205'', l_title = ''Inception'', l_image_url = None,
                  l_created_at = Some 120\<rparr>"

definition sample_db :: database where
  "sample_db = \<lparr>users = [alice, bob], profiles = [alice_profile, bob_profile],
                reviews = [alice_review], user_lists = [alice_watch], grants = script_grants\<rparr>"

definition fresh_db :: database where
  "fresh_db = \<lparr>users = [alice, bob], profiles = [alice_profile, bob_profile],
               reviews = [], user_lists = [], grants = script_grants\<rparr>"

definition unprovisioned_db :: database where
  "unprovisioned_db = \<lparr>users = [alice, bob], profiles = [],
               reviews = [], user_lists = [], grants = script_grants\<rparr>"

definition carol :: auth_user where
  "carol = \<lparr>au_id = 3, au_email = None, au_meta_username = None\<rparr>"

definition dave :: auth_user where
  "dave = \<lparr>au_id = 4, au_email = None, au_meta_username = None\<rparr>"

definition sample_history :: "action list" where
  "sample_history =
     [CreateUser alice 100, CreateUser bob 101,
      UpdateProfile (Identity 1) 1 (alice_profile\<lparr>p_avatar_url := Some ''a.png''\<rparr>),
      UpdateProfile (Identity 2) 1 (alice_profile\<lparr>p_username := Some ''mallory''\<rparr>),
      DeleteProfile (Identity 2) 1, DeleteProfile (Identity 1) 1,
      InsertProfile Service (bob_profile\<lparr>p_username := Some ''robert''\<rparr>),
      UpdateProfile Service 2 (bob_profile\<lparr>p_id := 1\<rparr>),
      UpdateProfile Service 2 (bob_profile\<lparr>p_id := 7\<rparr>),
      DeleteUser 2]"

definition bob_review :: review where
  "bob_review = \<lparr>r_id = 12, r_user_id = 2, r_media_type = ''book'', r_media_id = ''OL45804W'',
                 r_rating = 6, r_review_text = Some ''fine'',
                 r_created_at = Some 111, r_updated_at = Some 111\<rparr>"

definition bob_watch :: list_item where
  "bob_watch = \<lparr>l_id = 23, l_user_id = 2, l_list_type = ''reading_list'', l_media_type = ''book'',
                l_media_id = ''OL45804W'', l_title = ''Fantastic Mr Fox'', l_image_url = None,
                l_created_at = Some 121\<rparr>"

definition busy_db :: database where
  "busy_db = \<lparr>users = [alice, bob], profiles = [alice_profile, bob_profile],
              reviews = [alice_review, bob_review], user_lists = [alice_watch, bob_watch],
              grants = script_grants\<rparr>"

definition busy_history :: "action list" where
  "busy_history =
     [CreateUser alice 100, CreateUser bob 101,
      InsertReview (Identity 1) alice_review, InsertReview (Identity 2) bob_review,
      InsertListItem (Identity 1) alice_watch, InsertListItem (Identity 2) bob_watch]"

section \<open>Basic facts\<close>

lemmas sample_defs = sample_db_def fresh_db_def unprovisioned_db_def alice_def bob_def alice_profile_def bob_profile_def
  alice_review_def alice_watch_def script_grants_def script_db_def

lemmas policy_defs = admits_def
  profiles_select_policy_def profiles_insert_policy_def profiles_update_policy_def
  profiles_delete_policy_def
  reviews_select_policy_def reviews_insert_policy_def reviews_update_policy_def
  reviews_delete_policy_def
  user_lists_select_policy_def user_lists_insert_policy_def user_lists_update_policy_def
  user_lists_delete_policy_def

lemmas constraint_defs = media_type_ok_def rating_ok_def list_type_ok_def reviews_check_def
  user_lists_check_def profiles_conflict_def reviews_conflict_def user_lists_conflict_def
  user_exists_def has_privilege_def

lemma committed_Inl: "committed db (Inl e) = db"
  by (simp add: committed_def)

lemma committed_Inr: "committed db (Inr db') = db'"
  by (simp add: committed_def)

lemma insert_review_Inr:
  assumes "insert_review db c r = Inr db'"
  shows "has_privilege db c Reviews \<and> admits c (reviews_insert_policy c r) \<and> reviews_check r
         \<and> \<not> reviews_conflict (reviews db) r \<and> user_exists db (r_user_id r)
         \<and> db' = db\<lparr>reviews := reviews db @ [r]\<rparr>"
  using assms by (auto simp: insert_review_def split: if_splits)

lemma insert_list_item_Inr:
  assumes "insert_list_item db c l = Inr db'"
  shows "has_privilege db c UserLists \<and> admits c (user_lists_insert_policy c l) \<and> user_lists_check l
         \<and> \<not> user_lists_conflict (user_lists db) l \<and> user_exists db (l_user_id l)
         \<and> db' = db\<lparr>user_lists := user_lists db @ [l]\<rparr>"
  using assms by (auto simp: insert_list_item_def split: if_splits)

lemma insert_profile_Inr:
  assumes "insert_profile db c p = Inr db'"
  shows "has_privilege db c Profiles \<and> admits c (profiles_insert_policy c p)
         \<and> \<not> profiles_conflict (profiles db) p \<and> user_exists db (p_id p)
         \<and> db' = db\<lparr>profiles := profiles db @ [p]\<rparr>"
  using assms by (auto simp: insert_profile_def split: if_splits)

section \<open>Who can read and write which row\<close>

lemma grants_exec: "grants (exec db a) = grants db"
proof (cases a)
  case (CreateUser u now)
  then show ?thesis
    by (simp add: committed_def insert_auth_user_def handle_new_user_def Let_def split: sum.splits)
next
  case (DeleteUser u)
  then show ?thesis by (simp add: delete_auth_user_def)
next
  case (InsertProfile c p)
  then show ?thesis by (simp add: committed_def insert_profile_def split: sum.splits)
next
  case (UpdateProfile c pid p)
  then show ?thesis
    by (auto simp: committed_count_def update_profile_def split: sum.splits option.splits if_splits)
next
  case (DeleteProfile c pid)
  then show ?thesis by (auto simp: committed_count_def delete_profile_def split: sum.splits if_splits)
next
  case (InsertReview c r)
  then show ?thesis by (simp add: committed_def insert_review_def split: sum.splits)
next
  case (UpdateReview c rid r)
  then show ?thesis
    by (auto simp: committed_count_def update_review_def split: sum.splits option.splits if_splits)
next
  case (DeleteReview c rid)
  then show ?thesis by (auto simp: committed_count_def delete_review_def split: sum.splits if_splits)
next
  case (InsertListItem c l)
  then show ?thesis by (simp add: committed_def insert_list_item_def split: sum.splits)
next
  case (UpdateListItem c lid l)
  then show ?thesis
    by (auto simp: committed_count_def update_list_item_def split: sum.splits option.splits if_splits)
next
  case (DeleteListItem c lid)
  then show ?thesis
    by (auto simp: committed_count_def delete_list_item_def split: sum.splits if_splits)
qed

lemma grants_run: "grants (run db acts) = grants db"
  by (induction acts arbitrary: db) (simp_all add: grants_exec)

lemma identity_privileged: "has_privilege (run (script_db pre us) acts) (Identity v) t"
  by (cases t) (simp_all add: has_privilege_def grants_run script_db_def script_grants_def)

lemma select_reviews_all:
  "has_privilege db c Reviews \<Longrightarrow> select_reviews db c = Inr (reviews db)"
  by (simp add: select_reviews_def admits_def reviews_select_policy_def)

lemma select_user_lists_own:
  "has_privilege db c UserLists \<Longrightarrow> \<not> bypass_rls c \<Longrightarrow>
   select_user_lists db c = Inr (filter (\<lambda>l. auth_uid c = Some (l_user_id l)) (user_lists db))"
  by (simp add: select_user_lists_def admits_def user_lists_select_policy_def)

lemma anonymous_privileged:
  "has_privilege (run (script_db pre us) acts) Anonymous t = ((RoleAnon, t) \<in> set pre)"
  by (cases t) (simp_all add: has_privilege_def grants_run script_db_def script_grants_def)

text \<open>
  C1, as the script has it. A caller whose role holds the privilege on \<open>reviews\<close> reads
  every review: the policy admits every caller, with an identity or without. The script
  grants that privilege to \<open>authenticated\<close> and \<open>service_role\<close>, so in every database
  reached from the script's, every identity reads every review; a caller without identity
  reads every review there when role \<open>anon\<close> held the privilege before the script ran,
  and is refused with \<open>AuthorizationDenied\<close> otherwise. A read of \<open>user_lists\<close> by a caller
  under row level security who holds the privilege returns exactly the items whose
  \<open>user_id\<close> is the caller's \<open>auth.uid()\<close>; in every database reached from the script's,
  the read of an identity \<open>w\<close> raises no error and returns no item of another identity
  \<open>u\<close>.
\<close>

theorem review_and_list_reads:
  "(has_privilege db c Reviews \<longrightarrow> select_reviews db c = Inr (reviews db))
   \<and> select_reviews (run (script_db pre us) acts) (Identity v)
        = Inr (reviews (run (script_db pre us) acts))
   \<and> select_reviews (run (script_db pre us) acts) Anonymous
        = (if (RoleAnon, Reviews) \<in> set pre then Inr (reviews (run (script_db pre us) acts))
           else Inl AuthorizationDenied)
   \<and> (has_privilege db c' UserLists \<and> \<not> bypass_rls c' \<longrightarrow>
        select_user_lists db c'
          = Inr (filter (\<lambda>l. auth_uid c' = Some (l_user_id l)) (user_lists db)))
   \<and> (l_user_id l = u \<and> u \<noteq> w \<longrightarrow>
        (\<exists>rows. select_user_lists (run (script_db pre us) acts) (Identity w) = Inr rows
                 \<and> l \<notin> set rows))"
proof -
  have "select_reviews (run (script_db pre us) acts) (Identity v)
        = Inr (reviews (run (script_db pre us) acts))"
    by (rule select_reviews_all) (rule identity_privileged)
  moreover have "select_reviews (run (script_db pre us) acts) Anonymous
        = (if (RoleAnon, Reviews) \<in> set pre then Inr (reviews (run (script_db pre us) acts))
           else Inl AuthorizationDenied)"
    using anonymous_privileged[of pre us acts Reviews]
    by (simp add: select_reviews_def admits_def reviews_select_policy_def)
  moreover have "l_user_id l = u \<and> u \<noteq> w \<longrightarrow>
        (\<exists>rows. select_user_lists (run (script_db pre us) acts) (Identity w) = Inr rows
                 \<and> l \<notin> set rows)"
    using select_user_lists_own[of "run (script_db pre us) acts" "Identity w"]
      identity_privileged[of pre us acts w UserLists] by auto
  ultimately show ?thesis
    using select_reviews_all[of db c] select_user_lists_own[of db c'] by blast
qed

theorem review_and_list_reads_witness:
  "has_privilege (sample_db\<lparr>grants := (RoleAnon, Reviews) # script_grants\<rparr>) Anonymous Reviews
   \<and> has_privilege sample_db (Identity 1) UserLists \<and> \<not> bypass_rls (Identity 1)
   \<and> l_user_id alice_watch = 1 \<and> (1::nat) \<noteq> 2
   \<and> select_reviews (sample_db\<lparr>grants := (RoleAnon, Reviews) # script_grants\<rparr>) Anonymous
       = Inr [alice_review]
   \<and> select_reviews (run (script_db [] []) [CreateUser alice 100,
        InsertReview (Identity 1) alice_review]) (Identity 2) = Inr [alice_review]
   \<and> select_reviews (run (script_db [(RoleAnon, Reviews)] []) [CreateUser alice 100,
        InsertReview (Identity 1) alice_review]) Anonymous = Inr [alice_review]
   \<and> select_reviews (run (script_db [] []) [CreateUser alice 100,
        InsertReview (Identity 1) alice_review]) Anonymous = Inl AuthorizationDenied
   \<and> select_user_lists sample_db (Identity 1) = Inr [alice_watch]
   \<and> select_user_lists (run (script_db [] []) [CreateUser alice 100,
        InsertListItem (Identity 1) alice_watch]) (Identity 2) = Inr []"
  using review_and_list_reads[where db = "sample_db\<lparr>grants := (RoleAnon, Reviews) # script_grants\<rparr>"
      and c = Anonymous and pre = "[]" and us = "[]"
      and acts = "[CreateUser alice 100, InsertReview (Identity 1) alice_review]" and v = 2
      and c' = "Identity 1" and l = alice_watch and u = 1 and w = 2]
    review_and_list_reads[where db = sample_db and c = "Identity 1" and c' = "Identity 1"
      and pre = "[(RoleAnon, Reviews)]" and us = "[]"
      and acts = "[CreateUser alice 100, InsertReview (Identity 1) alice_review]" and v = 2
      and l = alice_watch and u = 1 and w = 2]
    review_and_list_reads[where db = sample_db and c = "Identity 1" and c' = "Identity 1"
      and pre = "[]" and us = "[]"
      and acts = "[CreateUser alice 100, InsertListItem (Identity 1) alice_watch]" and v = 2
      and l = alice_watch and u = 1 and w = 2]
  by (simp add: sample_defs policy_defs constraint_defs select_reviews_def select_user_lists_def
      insert_review_def insert_list_item_def insert_auth_user_def handle_new_user_def
      committed_def coalesce_def split_part_1_def)

text \<open>
  C1 as stated fails: identity 2 reading \<open>user_lists\<close> while identity 1 has an item there
  gets the empty result, not \<open>AuthorizationDenied\<close>.
\<close>

theorem list_read_by_other_identity_counterexample:
  "alice_watch \<in> set (user_lists sample_db) \<and> l_user_id alice_watch = 1
   \<and> has_privilege sample_db (Identity 2) UserLists
   \<and> select_user_lists sample_db (Identity 2) = Inr []
   \<and> select_user_lists sample_db (Identity 2) \<noteq> Inl AuthorizationDenied"
  by (simp add: sample_defs policy_defs constraint_defs select_user_lists_def)

lemma replace1_keeps: "x \<in> set xs \<Longrightarrow> x \<noteq> old \<Longrightarrow> x \<in> set (replace1 old new xs)"
  by (induction xs) auto

lemma set_replace1: "set (replace1 old new xs) \<subseteq> insert new (set xs)"
  by (induction xs) auto

lemma update_review_hidden:
  assumes "has_privilege db c Reviews"
    and "\<forall>r \<in> set (reviews db). r_id r = rid \<longrightarrow> \<not> admits c (reviews_update_policy c r)"
  shows "update_review db c rid new = Inr (0, db)"
proof -
  have "find (\<lambda>r. r_id r = rid \<and> admits c (reviews_update_policy c r)) (reviews db) = None"
    using assms(2) by (auto simp: find_None_iff)
  with assms(1) show ?thesis by (simp add: update_review_def)
qed

lemma delete_review_hidden:
  assumes "has_privilege db c Reviews"
    and "\<forall>r \<in> set (reviews db). r_id r = rid \<longrightarrow> \<not> admits c (reviews_delete_policy c r)"
  shows "delete_review db c rid = Inr (0, db)"
proof -
  let ?P = "\<lambda>r. r_id r = rid \<and> admits c (reviews_delete_policy c r)"
  have none: "filter ?P (reviews db) = []"
    using assms(2) by (auto simp: filter_empty_conv)
  have all: "filter (\<lambda>r. \<not> ?P r) (reviews db) = reviews db"
    using assms(2) by (auto simp: filter_id_conv)
  show ?thesis
    unfolding delete_review_def none all using assms(1) by simp
qed

lemma update_review_keeps_others:
  assumes "r \<in> set (reviews db)" and "\<not> admits c (reviews_update_policy c r)"
  shows "r \<in> set (reviews (exec db (UpdateReview c rid new)))"
proof (cases "update_review db c rid new")
  case (Inl e)
  then show ?thesis using assms(1) by (simp add: committed_count_def)
next
  case (Inr res)
  obtain n db' where res: "res = (n, db')" by (cases res)
  show ?thesis
  proof (cases "find (\<lambda>r. r_id r = rid \<and> admits c (reviews_update_policy c r)) (reviews db)")
    case None
    with Inr res have "db' = db"
      by (auto simp: update_review_def split: if_splits)
    with Inr res assms(1) show ?thesis by (simp add: committed_count_def)
  next
    case (Some old)
    then have "admits c (reviews_update_policy c old)"
      by (auto simp: find_Some_iff)
    with assms(2) have "r \<noteq> old" by auto
    moreover from Inr res Some have "db' = db\<lparr>reviews := replace1 old new (reviews db)\<rparr>"
      by (auto simp: update_review_def split: if_splits)
    ultimately show ?thesis
      using Inr res assms(1) by (simp add: committed_count_def replace1_keeps)
  qed
qed

lemma delete_review_keeps_others:
  assumes "r \<in> set (reviews db)" and "\<not> admits c (reviews_delete_policy c r)"
  shows "r \<in> set (reviews (exec db (DeleteReview c rid)))"
  using assms by (auto simp: committed_count_def delete_review_def)

text \<open>
  C2, as the script has it. For identities \<open>u1 \<noteq> u2\<close>, an \<open>UPDATE\<close> or \<open>DELETE\<close> issued by
  \<open>u2\<close> leaves every review of \<open>u1\<close> in the table as it is; when the addressed id
  belongs to a review of \<open>u1\<close>, the statement changes zero rows, returns the database
  unchanged and raises no error.
\<close>

theorem foreign_review_write_has_no_effect:
  "(u1 \<noteq> u2 \<and> r \<in> set (reviews db) \<and> r_user_id r = u1 \<longrightarrow>
      r \<in> set (reviews (exec db (UpdateReview (Identity u2) rid new)))
      \<and> r \<in> set (reviews (exec db (DeleteReview (Identity u2) rid))))
   \<and> (u1 \<noteq> u2 \<and> has_privilege db (Identity u2) Reviews
       \<and> (\<forall>q \<in> set (reviews db). r_id q = rid \<longrightarrow> r_user_id q = u1) \<longrightarrow>
      update_review db (Identity u2) rid new = Inr (0, db)
      \<and> delete_review db (Identity u2) rid = Inr (0, db))"
proof -
  have hidden: "\<not> admits (Identity u2) (reviews_update_policy (Identity u2) q)
      \<and> \<not> admits (Identity u2) (reviews_delete_policy (Identity u2) q)"
    if "r_user_id q \<noteq> u2" for q
    using that by (auto simp: admits_def reviews_update_policy_def reviews_delete_policy_def)
  have kept: "r \<in> set (reviews (exec db (UpdateReview (Identity u2) rid new)))
      \<and> r \<in> set (reviews (exec db (DeleteReview (Identity u2) rid)))"
    if "u1 \<noteq> u2" "r \<in> set (reviews db)" "r_user_id r = u1"
    using that hidden[of r] update_review_keeps_others delete_review_keeps_others by blast
  have no_rows: "update_review db (Identity u2) rid new = Inr (0, db)
      \<and> delete_review db (Identity u2) rid = Inr (0, db)"
    if "u1 \<noteq> u2" "has_privilege db (Identity u2) Reviews"
      "\<forall>q \<in> set (reviews db). r_id q = rid \<longrightarrow> r_user_id q = u1"
  proof -
    have "\<forall>q \<in> set (reviews db). r_id q = rid \<longrightarrow>
        \<not> admits (Identity u2) (reviews_update_policy (Identity u2) q)"
      and "\<forall>q \<in> set (reviews db). r_id q = rid \<longrightarrow>
        \<not> admits (Identity u2) (reviews_delete_policy (Identity u2) q)"
      using that(1,3) hidden by blast+
    then show ?thesis
      using that(2) update_review_hidden delete_review_hidden by blast
  qed
  from kept no_rows show ?thesis by blast
qed

theorem foreign_review_write_has_no_effect_witness:
  "(1::nat) \<noteq> 2 \<and> alice_review \<in> set (reviews sample_db) \<and> r_user_id alice_review = 1
   \<and> r_id alice_review = 10 \<and> has_privilege sample_db (Identity 2) Reviews
   \<and> update_review sample_db (Identity 2) 10 (alice_review\<lparr>r_rating := 1\<rparr>) = Inr (0, sample_db)
   \<and> delete_review sample_db (Identity 2) 10 = Inr (0, sample_db)
   \<and> alice_review \<in> set (reviews (exec sample_db
        (UpdateReview (Identity 2) 10 (alice_review\<lparr>r_rating := 1\<rparr>))))
   \<and> alice_review \<in> set (reviews (exec sample_db (DeleteReview (Identity 2) 10)))"
proof -
  have h0: "(1::nat) \<noteq> 2" by simp
  have h1: "alice_review \<in> set (reviews sample_db)" by (simp add: sample_db_def)
  have h2: "r_user_id alice_review = 1" "r_id alice_review = 10"
    by (simp_all add: alice_review_def)
  have h3: "has_privilege sample_db (Identity 2) Reviews"
    by (simp add: has_privilege_def sample_db_def script_grants_def)
  have h4: "\<forall>q \<in> set (reviews sample_db). r_id q = 10 \<longrightarrow> r_user_id q = 1"
    by (simp add: sample_db_def alice_review_def)
  show ?thesis
    using foreign_review_write_has_no_effect[of 1 2 alice_review sample_db 10
        "alice_review\<lparr>r_rating := 1\<rparr>"] h0 h1 h2 h3 h4
    by blast
qed

text \<open>
  C2 as stated fails: identity 2 updating or deleting the review of identity 1 does not
  get \<open>AuthorizationDenied\<close>; both statements succeed on zero rows.
\<close>

theorem foreign_review_write_counterexample:
  "alice_review \<in> set (reviews sample_db) \<and> r_user_id alice_review = 1
   \<and> r_id alice_review = 10
   \<and> update_review sample_db (Identity 2) 10 (alice_review\<lparr>r_rating := 1\<rparr>)
       \<noteq> Inl AuthorizationDenied
   \<and> delete_review sample_db (Identity 2) 10 \<noteq> Inl AuthorizationDenied
   \<and> update_review sample_db (Identity 2) 10 (alice_review\<lparr>r_rating := 1\<rparr>) = Inr (0, sample_db)
   \<and> delete_review sample_db (Identity 2) 10 = Inr (0, sample_db)"
  by (simp add: sample_defs policy_defs constraint_defs update_review_def delete_review_def)

section \<open>Provisioning\<close>

lemma split_part_1_local:
  "d \<notin> set l \<Longrightarrow> split_part_1 (l @ d # rest) d = l"
  by (auto simp: split_part_1_def takeWhile_tail)

lemma insert_auth_user_Inr:
  assumes "insert_auth_user db a now = Inr db'"
  shows "\<not> user_exists db (au_id a)
    \<and> db' = db\<lparr>users := users db @ [a],
               profiles := profiles db @
                 [\<lparr>p_id = au_id a,
                   p_username = coalesce (au_meta_username a)
                                  (map_option (\<lambda>e. split_part_1 e CHR ''@'') (au_email a)),
                   p_avatar_url = None, p_created_at = Some now, p_updated_at = Some now\<rparr>]\<rparr>
    \<and> \<not> profiles_conflict (profiles db)
          \<lparr>p_id = au_id a,
           p_username = coalesce (au_meta_username a)
                          (map_option (\<lambda>e. split_part_1 e CHR ''@'') (au_email a)),
           p_avatar_url = None, p_created_at = Some now, p_updated_at = Some now\<rparr>"
  using assms
  by (auto simp: insert_auth_user_def handle_new_user_def Let_def split: if_splits)

lemma insert_auth_user_succeeds:
  assumes "\<not> user_exists db (au_id a)"
    and "\<not> profiles_conflict (profiles db)
          \<lparr>p_id = au_id a,
           p_username = coalesce (au_meta_username a)
                          (map_option (\<lambda>e. split_part_1 e CHR ''@'') (au_email a)),
           p_avatar_url = None, p_created_at = Some now, p_updated_at = Some now\<rparr>"
  shows "insert_auth_user db a now
    = Inr (db\<lparr>users := users db @ [a],
               profiles := profiles db @
                 [\<lparr>p_id = au_id a,
                   p_username = coalesce (au_meta_username a)
                                  (map_option (\<lambda>e. split_part_1 e CHR ''@'') (au_email a)),
                   p_avatar_url = None, p_created_at = Some now, p_updated_at = Some now\<rparr>]\<rparr>)"
  using assms
  by (simp add: insert_auth_user_def handle_new_user_def Let_def user_exists_def)

lemma insert_auth_user_collision:
  assumes "q \<in> set (profiles db)" and "p_username q = Some n"
    and "coalesce (au_meta_username a)
           (map_option (\<lambda>e. split_part_1 e CHR ''@'') (au_email a)) = Some n"
  shows "insert_auth_user db a now = Inl UniqueViolation"
proof -
  have "profiles_conflict (profiles db)
          \<lparr>p_id = au_id a,
           p_username = coalesce (au_meta_username a)
                          (map_option (\<lambda>e. split_part_1 e CHR ''@'') (au_email a)),
           p_avatar_url = None, p_created_at = Some now, p_updated_at = Some now\<rparr>"
    using assms by (auto simp: profiles_conflict_def)
  then show ?thesis
    by (simp add: insert_auth_user_def handle_new_user_def Let_def)
qed

text \<open>
  C5. When the creation of an identity succeeds, the database holds a profile whose \<open>id\<close>
  is the identity's id and whose username is the metadata username when there is one,
  and otherwise, for an email \<open>l@rest\<close> with no \<open>@\<close> in \<open>l\<close>, the local part \<open>l\<close>. In
  particular, wherever no identity has her id and no profile has her id or the username
  \<open>alice\<close>, creating \<open>alice@example.com\<close> without metadata succeeds and adds exactly the
  profile with her id and the username \<open>alice\<close>.
\<close>

theorem provisioned_username:
  "(insert_auth_user db a now = Inr db' \<longrightarrow>
      (\<exists>p \<in> set (profiles db'). p_id p = au_id a
         \<and> (\<forall>m. au_meta_username a = Some m \<longrightarrow> p_username p = Some m)
         \<and> (\<forall>l rest. au_meta_username a = None \<and> au_email a = Some (l @ CHR ''@'' # rest)
                \<and> CHR ''@'' \<notin> set l \<longrightarrow> p_username p = Some l)))
   \<and> (\<not> user_exists db2 (au_id alice)
       \<and> (\<forall>q \<in> set (profiles db2). p_id q \<noteq> au_id alice \<and> p_username q \<noteq> Some ''alice'') \<longrightarrow>
       insert_auth_user db2 alice t
         = Inr (db2\<lparr>users := users db2 @ [alice],
                    profiles := profiles db2 @
                      [\<lparr>p_id = au_id alice, p_username = Some ''alice'', p_avatar_url = None,
                        p_created_at = Some t, p_updated_at = Some t\<rparr>]\<rparr>))"
proof -
  have first: "\<exists>p \<in> set (profiles db'). p_id p = au_id a
         \<and> (\<forall>m. au_meta_username a = Some m \<longrightarrow> p_username p = Some m)
         \<and> (\<forall>l rest. au_meta_username a = None \<and> au_email a = Some (l @ CHR ''@'' # rest)
                \<and> CHR ''@'' \<notin> set l \<longrightarrow> p_username p = Some l)"
    if ok: "insert_auth_user db a now = Inr db'"
  proof -
    let ?p = "\<lparr>p_id = au_id a,
               p_username = coalesce (au_meta_username a)
                              (map_option (\<lambda>e. split_part_1 e CHR ''@'') (au_email a)),
               p_avatar_url = None, p_created_at = Some now, p_updated_at = Some now\<rparr>"
    have "?p \<in> set (profiles db')"
      using insert_auth_user_Inr[OF ok] by simp
    moreover have "p_id ?p = au_id a" by simp
    moreover have "\<forall>m. au_meta_username a = Some m \<longrightarrow> p_username ?p = Some m"
      by (simp add: coalesce_def)
    moreover have "\<forall>l rest. au_meta_username a = None \<and> au_email a = Some (l @ CHR ''@'' # rest)
                \<and> CHR ''@'' \<notin> set l \<longrightarrow> p_username ?p = Some l"
      by (simp add: coalesce_def split_part_1_local)
    ultimately show ?thesis by blast
  qed
  have email: "split_part_1 ''alice@example.com'' CHR ''@'' = ''alice''"
    by (simp add: split_part_1_def)
  have second: "insert_auth_user db2 alice t
         = Inr (db2\<lparr>users := users db2 @ [alice],
                    profiles := profiles db2 @
                      [\<lparr>p_id = au_id alice, p_username = Some ''alice'', p_avatar_url = None,
                        p_created_at = Some t, p_updated_at = Some t\<rparr>]\<rparr>)"
    if "\<not> user_exists db2 (au_id alice)"
      "\<forall>q \<in> set (profiles db2). p_id q \<noteq> au_id alice \<and> p_username q \<noteq> Some ''alice''"
    using insert_auth_user_succeeds[of db2 alice t] that
    by (auto simp: alice_def coalesce_def email profiles_conflict_def)
  from first second show ?thesis by blast
qed

theorem provisioned_username_witness:
  "insert_auth_user (script_db [] []) alice 100
     = Inr ((script_db [] [])\<lparr>users := [alice], profiles := [alice_profile]\<rparr>)
   \<and> p_username alice_profile = Some ''alice'' \<and> p_id alice_profile = au_id alice
   \<and> au_email alice = Some (''alice'' @ CHR ''@'' # ''example.com'')
   \<and> au_meta_username alice = None
   \<and> insert_auth_user ((script_db [] [])\<lparr>users := [alice], profiles := [alice_profile]\<rparr>) bob 101
     = Inr ((script_db [] [])\<lparr>users := [alice, bob], profiles := [alice_profile, bob_profile]\<rparr>)
   \<and> au_meta_username bob = Some ''bobby'' \<and> p_username bob_profile = Some ''bobby''"
proof -
  have h: "\<not> user_exists (script_db [] []) (au_id alice)"
    "\<forall>q \<in> set (profiles (script_db [] [])). p_id q \<noteq> au_id alice \<and> p_username q \<noteq> Some ''alice''"
    by (simp_all add: script_db_def user_exists_def)
  have a: "insert_auth_user (script_db [] []) alice 100
     = Inr ((script_db [] [])\<lparr>users := [alice], profiles := [alice_profile]\<rparr>)"
    using provisioned_username[of "script_db [] []" alice 100
        "(script_db [] [])\<lparr>users := [alice], profiles := [alice_profile]\<rparr>" "script_db [] []" 100] h
    by (simp add: script_db_def alice_profile_def alice_def)
  have b: "insert_auth_user ((script_db [] [])\<lparr>users := [alice], profiles := [alice_profile]\<rparr>) bob 101
     = Inr ((script_db [] [])\<lparr>users := [alice, bob], profiles := [alice_profile, bob_profile]\<rparr>)"
    by (simp add: insert_auth_user_def handle_new_user_def sample_defs constraint_defs coalesce_def)
  from provisioned_username[of "(script_db [] [])\<lparr>users := [alice], profiles := [alice_profile]\<rparr>"
      bob 101 "(script_db [] [])\<lparr>users := [alice, bob], profiles := [alice_profile, bob_profile]\<rparr>"] b
  have "\<exists>p \<in> set [alice_profile, bob_profile]. p_id p = au_id bob \<and> p_username p = Some ''bobby''"
    by (simp add: bob_def)
  with a b show ?thesis
    by (simp add: sample_defs)
qed

text \<open>
  C9. If the username derived for a new identity (the metadata username, else
  \<open>split_part(email, '@', 1)\<close>) is the username of a stored profile, the creation of the
  identity fails with \<open>UniqueViolation\<close>; nothing is tried in its place, and the database
  after the attempt is the database before it: neither a row of \<open>auth.users\<close> nor a
  profile is left.
\<close>

theorem username_collision_aborts_signup:
  "q \<in> set (profiles db) \<and> p_username q = Some n
   \<and> (au_meta_username a = Some n
        \<or> (au_meta_username a = None \<and> au_email a = Some e \<and> split_part_1 e CHR ''@'' = n)) \<longrightarrow>
     insert_auth_user db a now = Inl UniqueViolation
     \<and> exec db (CreateUser a now) = db"
proof
  assume h: "q \<in> set (profiles db) \<and> p_username q = Some n
   \<and> (au_meta_username a = Some n
        \<or> (au_meta_username a = None \<and> au_email a = Some e \<and> split_part_1 e CHR ''@'' = n))"
  then have "coalesce (au_meta_username a)
           (map_option (\<lambda>e. split_part_1 e CHR ''@'') (au_email a)) = Some n"
    by (auto simp: coalesce_def)
  with h have "insert_auth_user db a now = Inl UniqueViolation"
    using insert_auth_user_collision by blast
  then show "insert_auth_user db a now = Inl UniqueViolation \<and> exec db (CreateUser a now) = db"
    by (simp add: committed_Inl)
qed

theorem username_collision_aborts_signup_witness:
  "alice_profile \<in> set (profiles sample_db) \<and> p_username alice_profile = Some ''alice''
   \<and> split_part_1 ''alice@elsewhere.org'' CHR ''@'' = ''alice''
   \<and> insert_auth_user sample_db
        \<lparr>au_id = 5, au_email = Some ''alice@elsewhere.org'', au_meta_username = None\<rparr> 130
      = Inl UniqueViolation
   \<and> exec sample_db
        (CreateUser \<lparr>au_id = 5, au_email = Some ''alice@elsewhere.org'', au_meta_username = None\<rparr> 130)
      = sample_db
   \<and> insert_auth_user sample_db
        \<lparr>au_id = 6, au_email = Some ''robert@example.com'', au_meta_username = Some ''bobby''\<rparr> 131
      = Inl UniqueViolation"
proof -
  have h1: "alice_profile \<in> set (profiles sample_db)" "bob_profile \<in> set (profiles sample_db)"
    by (simp_all add: sample_db_def)
  have h2: "p_username alice_profile = Some ''alice''" "p_username bob_profile = Some ''bobby''"
    by (simp_all add: alice_profile_def bob_profile_def)
  have h3: "split_part_1 ''alice@elsewhere.org'' CHR ''@'' = ''alice''"
    by (simp add: split_part_1_def)
  show ?thesis
    using username_collision_aborts_signup[of alice_profile sample_db "''alice''"
        "\<lparr>au_id = 5, au_email = Some ''alice@elsewhere.org'', au_meta_username = None\<rparr>"
        "''alice@elsewhere.org''" 130]
      username_collision_aborts_signup[of bob_profile sample_db "''bobby''"
        "\<lparr>au_id = 6, au_email = Some ''robert@example.com'', au_meta_username = Some ''bobby''\<rparr>"
        "''robert@example.com''" 131]
      h1 h2 h3
    by (simp add: committed_Inl)
qed

lemma null_username_conflict:
  "p_username p = None \<Longrightarrow> profiles_conflict ps p = (\<exists>q \<in> set ps. p_id q = p_id p)"
  by (simp add: profiles_conflict_def)

text \<open>
  C10. An identity with neither a metadata username nor an email, whose id is new, is
  created together with a profile whose username is \<open>NULL\<close>, whatever usernames the
  stored profiles have; and a profile without username conflicts with a stored one only
  through its id, so any number of profiles without username can be stored together.
\<close>

theorem null_username_provisioning:
  "(au_meta_username a = None \<and> au_email a = None \<and> \<not> user_exists db (au_id a)
    \<and> (\<forall>q \<in> set (profiles db). p_id q \<noteq> au_id a) \<longrightarrow>
      insert_auth_user db a now
        = Inr (db\<lparr>users := users db @ [a],
                  profiles := profiles db @
                    [\<lparr>p_id = au_id a, p_username = None, p_avatar_url = None,
                      p_created_at = Some now, p_updated_at = Some now\<rparr>]\<rparr>))
   \<and> (p_username p = None \<longrightarrow> profiles_conflict ps p = (\<exists>q \<in> set ps. p_id q = p_id p))"
proof -
  have "insert_auth_user db a now
        = Inr (db\<lparr>users := users db @ [a],
                  profiles := profiles db @
                    [\<lparr>p_id = au_id a, p_username = None, p_avatar_url = None,
                      p_created_at = Some now, p_updated_at = Some now\<rparr>]\<rparr>)"
    if "au_meta_username a = None" "au_email a = None" "\<not> user_exists db (au_id a)"
      "\<forall>q \<in> set (profiles db). p_id q \<noteq> au_id a"
    using insert_auth_user_succeeds[of db a now] that
    by (simp add: coalesce_def profiles_conflict_def)
  then show ?thesis using null_username_conflict[of p ps] by blast
qed

theorem null_username_provisioning_witness:
  "au_meta_username carol = None \<and> au_email carol = None
   \<and> map p_username (profiles (run sample_db [CreateUser carol 140, CreateUser dave 141]))
       = [Some ''alice'', Some ''bobby'', None, None]
   \<and> map au_id (users (run sample_db [CreateUser carol 140, CreateUser dave 141])) = [1, 2, 3, 4]
   \<and> map p_id (profiles (run sample_db [CreateUser carol 140, CreateUser dave 141])) = [1, 2, 3, 4]"
proof -
  let ?pc = "\<lparr>p_id = 3, p_username = None, p_avatar_url = None,
               p_created_at = Some 140, p_updated_at = Some 140\<rparr>"
  let ?db1 = "sample_db\<lparr>users := users sample_db @ [carol],
                        profiles := profiles sample_db @ [?pc]\<rparr>"
  have c: "au_meta_username carol = None" "au_email carol = None" "au_id carol = 3"
    by (simp_all add: carol_def)
  have d: "au_meta_username dave = None" "au_email dave = None" "au_id dave = 4"
    by (simp_all add: dave_def)
  have f1: "\<not> user_exists sample_db 3" "\<forall>q \<in> set (profiles sample_db). p_id q \<noteq> 3"
    by (simp_all add: sample_defs user_exists_def)
  have s1: "insert_auth_user sample_db carol 140 = Inr ?db1"
    using null_username_provisioning[of carol sample_db 140] c f1 by simp
  have f2: "\<not> user_exists ?db1 4" "\<forall>q \<in> set (profiles ?db1). p_id q \<noteq> 4"
    by (simp_all add: sample_defs user_exists_def carol_def)
  have s2: "insert_auth_user ?db1 dave 141
     = Inr (?db1\<lparr>users := users ?db1 @ [dave],
                 profiles := profiles ?db1 @
                   [\<lparr>p_id = 4, p_username = None, p_avatar_url = None,
                     p_created_at = Some 141, p_updated_at = Some 141\<rparr>]\<rparr>)"
    using null_username_provisioning[of dave ?db1 141] d f2 by simp
  show ?thesis
    by (simp add: s1 s2 committed_Inr c d) (simp add: sample_defs)
qed

section \<open>Check constraints\<close>

lemma reviews_exec:
  "set (reviews (exec db a)) \<subseteq> set (reviews db) \<union> {r. reviews_check r}"
proof (cases a)
  case (CreateUser u now)
  then show ?thesis
    by (auto simp: committed_def dest!: insert_auth_user_Inr split: sum.splits)
next
  case (DeleteUser u)
  then show ?thesis by (auto simp: delete_auth_user_def)
next
  case (InsertProfile c p)
  then show ?thesis
    by (auto simp: committed_def dest!: insert_profile_Inr split: sum.splits)
next
  case (UpdateProfile c pid p)
  then show ?thesis
    by (auto simp: committed_count_def update_profile_def split: sum.splits option.splits if_splits)
next
  case (DeleteProfile c pid)
  then show ?thesis
    by (auto simp: committed_count_def delete_profile_def split: sum.splits if_splits)
next
  case (InsertReview c r)
  then show ?thesis
    by (auto simp: committed_def dest!: insert_review_Inr split: sum.splits)
next
  case (UpdateReview c rid r)
  then show ?thesis
    using set_replace1[of _ r "reviews db"]
    by (auto simp: committed_count_def update_review_def split: sum.splits option.splits if_splits)
next
  case (DeleteReview c rid)
  then show ?thesis
    by (auto simp: committed_count_def delete_review_def split: sum.splits if_splits)
next
  case (InsertListItem c l)
  then show ?thesis
    by (auto simp: committed_def dest!: insert_list_item_Inr split: sum.splits)
next
  case (UpdateListItem c lid l)
  then show ?thesis
    by (auto simp: committed_count_def update_list_item_def split: sum.splits option.splits if_splits)
next
  case (DeleteListItem c lid)
  then show ?thesis
    by (auto simp: committed_count_def delete_list_item_def split: sum.splits if_splits)
qed

lemma reviews_run:
  "set (reviews (run db acts)) \<subseteq> set (reviews db) \<union> {r. reviews_check r}"
proof (induction acts arbitrary: db)
  case Nil
  show ?case by simp
next
  case (Cons a acts)
  have "set (reviews (run (exec db a) acts)) \<subseteq> set (reviews (exec db a)) \<union> {r. reviews_check r}"
    by (rule Cons.IH)
  with reviews_exec[of db a] show ?case by auto
qed

lemma insert_review_check_violation:
  assumes "has_privilege db c Reviews" and "admits c (reviews_insert_policy c r)"
    and "\<not> reviews_check r"
  shows "insert_review db c r = Inl CheckViolation"
  using assms by (simp add: insert_review_def)

lemma insert_review_succeeds:
  assumes "has_privilege db c Reviews" and "admits c (reviews_insert_policy c r)"
    and "reviews_check r" and "\<not> reviews_conflict (reviews db) r"
    and "user_exists db (r_user_id r)"
  shows "insert_review db c r = Inr (db\<lparr>reviews := reviews db @ [r]\<rparr>)"
  using assms by (simp add: insert_review_def)

text \<open>
  C7. For a caller who holds the privilege and whom the policy admits, an insert of a
  review with rating 0 or 11, or any rating outside 1..10, fails with \<open>CheckViolation\<close>, as
  does one whose media type is \<open>podcast\<close> or anything else outside movie, book, show; an
  insert with rating 1 or 10, a media type of the three, a free key and an existing owner
  succeeds. An update to such a row fails the same way. In every database reached from
  the script's by any statements of any callers, every stored review has a rating in
  1..10 and a media type of the three.
\<close>

theorem review_check_constraints:
  "(has_privilege db c Reviews \<and> admits c (reviews_insert_policy c r) \<longrightarrow>
      (r_rating r = 0 \<or> r_rating r = 11 \<longrightarrow> insert_review db c r = Inl CheckViolation)
      \<and> (r_rating r < 1 \<or> r_rating r > 10 \<longrightarrow> insert_review db c r = Inl CheckViolation)
      \<and> (r_media_type r = ''podcast'' \<longrightarrow> insert_review db c r = Inl CheckViolation)
      \<and> (r_media_type r \<notin> {''movie'', ''book'', ''show''} \<longrightarrow>
            insert_review db c r = Inl CheckViolation)
      \<and> ((r_rating r = 1 \<or> r_rating r = 10) \<and> r_media_type r \<in> {''movie'', ''book'', ''show''}
           \<and> \<not> reviews_conflict (reviews db) r \<and> user_exists db (r_user_id r) \<longrightarrow>
            insert_review db c r = Inr (db\<lparr>reviews := reviews db @ [r]\<rparr>)))
   \<and> (has_privilege db c Reviews \<and> old \<in> set (reviews db) \<and> r_id old = rid
       \<and> admits c (reviews_update_policy c old) \<and> admits c (reviews_update_policy c new)
       \<and> (r_rating new < 1 \<or> r_rating new > 10
            \<or> r_media_type new \<notin> {''movie'', ''book'', ''show''}) \<longrightarrow>
         update_review db c rid new = Inl CheckViolation)
   \<and> (\<forall>s \<in> set (reviews (run (script_db pre us) acts)).
         1 \<le> r_rating s \<and> r_rating s \<le> 10 \<and> r_media_type s \<in> {''movie'', ''book'', ''show''})"
proof -
  have upd: "update_review db c rid new = Inl CheckViolation"
    if "has_privilege db c Reviews \<and> old \<in> set (reviews db) \<and> r_id old = rid
       \<and> admits c (reviews_update_policy c old) \<and> admits c (reviews_update_policy c new)
       \<and> (r_rating new < 1 \<or> r_rating new > 10
            \<or> r_media_type new \<notin> {''movie'', ''book'', ''show''})"
  proof -
    have "find (\<lambda>r. r_id r = rid \<and> admits c (reviews_update_policy c r)) (reviews db) \<noteq> None"
      using that by (auto simp: find_None_iff)
    then obtain old' where
      "find (\<lambda>r. r_id r = rid \<and> admits c (reviews_update_policy c r)) (reviews db) = Some old'"
      by blast
    moreover have "\<not> reviews_check new"
      using that by (auto simp: reviews_check_def rating_ok_def media_type_ok_def)
    ultimately show ?thesis
      using that by (simp add: update_review_def)
  qed
  have inv: "\<forall>s \<in> set (reviews (run (script_db pre us) acts)).
         1 \<le> r_rating s \<and> r_rating s \<le> 10 \<and> r_media_type s \<in> {''movie'', ''book'', ''show''}"
    using reviews_run[of "script_db pre us" acts]
    by (auto simp: script_db_def reviews_check_def rating_ok_def media_type_ok_def)
  have bad: "insert_review db c r = Inl CheckViolation"
    if "has_privilege db c Reviews" "admits c (reviews_insert_policy c r)"
      "r_rating r < 1 \<or> r_rating r > 10 \<or> r_media_type r \<notin> {''movie'', ''book'', ''show''}"
    using that insert_review_check_violation[of db c r]
    by (auto simp: reviews_check_def rating_ok_def media_type_ok_def)
  have good: "insert_review db c r = Inr (db\<lparr>reviews := reviews db @ [r]\<rparr>)"
    if "has_privilege db c Reviews" "admits c (reviews_insert_policy c r)"
      "r_rating r = 1 \<or> r_rating r = 10" "r_media_type r \<in> {''movie'', ''book'', ''show''}"
      "\<not> reviews_conflict (reviews db) r" "user_exists db (r_user_id r)"
    using that insert_review_succeeds[of db c r]
    by (auto simp: reviews_check_def rating_ok_def media_type_ok_def)
  have podcast: "''podcast'' \<notin> {''movie'', ''book'', ''show''}" by simp
  show ?thesis
  proof (intro conjI impI)
    assume h: "has_privilege db c Reviews \<and> admits c (reviews_insert_policy c r)"
    { assume "r_rating r = 0 \<or> r_rating r = 11"
      then have "r_rating r < 1 \<or> r_rating r > 10" by auto
      with h show "insert_review db c r = Inl CheckViolation" using bad by blast }
    { assume "r_rating r < 1 \<or> r_rating r > 10"
      with h show "insert_review db c r = Inl CheckViolation" using bad by blast }
    { assume "r_media_type r = ''podcast''"
      with podcast have "r_media_type r \<notin> {''movie'', ''book'', ''show''}" by simp
      with h show "insert_review db c r = Inl CheckViolation" using bad by blast }
    { assume "r_media_type r \<notin> {''movie'', ''book'', ''show''}"
      with h show "insert_review db c r = Inl CheckViolation" using bad by blast }
    { assume "(r_rating r = 1 \<or> r_rating r = 10) \<and> r_media_type r \<in> {''movie'', ''book'', ''show''}
           \<and> \<not> reviews_conflict (reviews db) r \<and> user_exists db (r_user_id r)"
      with h show "insert_review db c r = Inr (db\<lparr>reviews := reviews db @ [r]\<rparr>)"
        using good by blast }
  next
    assume "has_privilege db c Reviews \<and> old \<in> set (reviews db) \<and> r_id old = rid
       \<and> admits c (reviews_update_policy c old) \<and> admits c (reviews_update_policy c new)
       \<and> (r_rating new < 1 \<or> r_rating new > 10
            \<or> r_media_type new \<notin> {''movie'', ''book'', ''show''})"
    then show "update_review db c rid new = Inl CheckViolation" by (rule upd)
  next
    show "\<forall>s \<in> set (reviews (run (script_db pre us) acts)).
         1 \<le> r_rating s \<and> r_rating s \<le> 10 \<and> r_media_type s \<in> {''movie'', ''book'', ''show''}"
      by (rule inv)
  qed
qed

theorem review_check_constraints_witness:
  "has_privilege fresh_db (Identity 1) Reviews
   \<and> admits (Identity 1) (reviews_insert_policy (Identity 1) alice_review)
   \<and> insert_review fresh_db (Identity 1) (alice_review\<lparr>r_rating := 0\<rparr>) = Inl CheckViolation
   \<and> insert_review fresh_db (Identity 1) (alice_review\<lparr>r_rating := 11\<rparr>) = Inl CheckViolation
   \<and> insert_review fresh_db (Identity 1) (alice_review\<lparr>r_media_type := ''podcast''\<rparr>)
       = Inl CheckViolation
   \<and> insert_review fresh_db (Identity 1) (alice_review\<lparr>r_rating := 1\<rparr>)
       = Inr (fresh_db\<lparr>reviews := [alice_review\<lparr>r_rating := 1\<rparr>]\<rparr>)
   \<and> insert_review fresh_db (Identity 1) (alice_review\<lparr>r_rating := 10\<rparr>)
       = Inr (fresh_db\<lparr>reviews := [alice_review\<lparr>r_rating := 10\<rparr>]\<rparr>)
   \<and> update_review sample_db (Identity 1) 10 (alice_review\<lparr>r_rating := 11\<rparr>) = Inl CheckViolation
   \<and> update_review sample_db Service 10 (alice_review\<lparr>r_rating := 0\<rparr>) = Inl CheckViolation"
proof -
  have p: "has_privilege fresh_db (Identity 1) Reviews" "has_privilege sample_db (Identity 1) Reviews"
    "has_privilege sample_db Service Reviews"
    by (simp_all add: has_privilege_def fresh_db_def sample_db_def script_grants_def)
  have a: "admits (Identity 1) (reviews_insert_policy (Identity 1) (alice_review\<lparr>r_rating := n\<rparr>))"
    "admits (Identity 1) (reviews_insert_policy (Identity 1) (alice_review\<lparr>r_media_type := m\<rparr>))"
    "admits (Identity 1) (reviews_insert_policy (Identity 1) alice_review)"
    "admits (Identity 1) (reviews_update_policy (Identity 1) (alice_review\<lparr>r_rating := n\<rparr>))"
    "admits (Identity 1) (reviews_update_policy (Identity 1) alice_review)"
    "admits Service b" for n m b
    by (simp_all add: admits_def reviews_insert_policy_def reviews_update_policy_def alice_review_def)
  have f: "\<not> reviews_conflict (reviews fresh_db) x" "user_exists fresh_db (r_user_id alice_review)"
    "alice_review \<in> set (reviews sample_db)" "r_id alice_review = 10" for x
    by (simp_all add: reviews_conflict_def fresh_db_def user_exists_def alice_review_def alice_def
        sample_db_def)
  have e: "reviews fresh_db = []" by (simp add: fresh_db_def)
  show ?thesis
    using review_check_constraints[where db = fresh_db and c = "Identity 1"
        and r = "alice_review\<lparr>r_rating := 0\<rparr>"]
      review_check_constraints[where db = fresh_db and c = "Identity 1"
        and r = "alice_review\<lparr>r_rating := 11\<rparr>"]
      review_check_constraints[where db = fresh_db and c = "Identity 1"
        and r = "alice_review\<lparr>r_media_type := ''podcast''\<rparr>"]
      review_check_constraints[where db = fresh_db and c = "Identity 1"
        and r = "alice_review\<lparr>r_rating := 1\<rparr>"]
      review_check_constraints[where db = fresh_db and c = "Identity 1"
        and r = "alice_review\<lparr>r_rating := 10\<rparr>"]
      review_check_constraints[where db = sample_db and c = "Identity 1" and old = alice_review
        and rid = 10 and new = "alice_review\<lparr>r_rating := 11\<rparr>"]
      review_check_constraints[where db = sample_db and c = Service and old = alice_review
        and rid = 10 and new = "alice_review\<lparr>r_rating := 0\<rparr>"]
      p a f
    by (simp add: e) (simp add: alice_review_def)
qed

section \<open>Cascade\<close>

lemma find_Some_set: "find P xs = Some x \<Longrightarrow> x \<in> set xs \<and> P x"
  by (induction xs) (auto split: if_splits)

lemma replace1_all:
  "\<forall>x \<in> set xs. P x \<Longrightarrow> P new \<Longrightarrow> \<forall>x \<in> set (replace1 old new xs). P x"
  using set_replace1[of old new xs] by auto

lemma no_orphans_create:
  assumes inv: "no_orphans db"
  shows "no_orphans (committed db (insert_auth_user db a now))"
proof (cases "insert_auth_user db a now")
  case (Inl e)
  with inv show ?thesis by (simp add: committed_def)
next
  case (Inr db')
  note f = insert_auth_user_Inr[OF Inr]
  have "no_orphans db'"
    using inv f by (auto simp: no_orphans_def user_exists_def)
  with Inr show ?thesis by (simp add: committed_def)
qed

lemma no_orphans_delete_user:
  assumes inv: "no_orphans db"
  shows "no_orphans (delete_auth_user db u)"
proof -
  have keep: "user_exists (delete_auth_user db u) v" if "user_exists db v" "v \<noteq> u" for v
    using that by (auto simp: user_exists_def delete_auth_user_def)
  have "\<forall>p \<in> set (profiles (delete_auth_user db u)). user_exists (delete_auth_user db u) (p_id p)"
    using inv keep by (auto simp: no_orphans_def delete_auth_user_def)
  moreover have
    "\<forall>r \<in> set (reviews (delete_auth_user db u)). user_exists (delete_auth_user db u) (r_user_id r)"
    using inv keep by (auto simp: no_orphans_def delete_auth_user_def)
  moreover have
    "\<forall>l \<in> set (user_lists (delete_auth_user db u)).
        user_exists (delete_auth_user db u) (l_user_id l)"
    using inv keep by (auto simp: no_orphans_def delete_auth_user_def)
  ultimately show ?thesis by (simp add: no_orphans_def)
qed

lemma no_orphans_update_profile:
  assumes inv: "no_orphans db"
  shows "no_orphans (committed_count db (update_profile db c pid new))"
proof (cases "update_profile db c pid new")
  case (Inl e)
  with inv show ?thesis by (simp add: committed_count_def)
next
  case (Inr res)
  obtain n db' where res: "res = (n, db')" by (cases res)
  show ?thesis
  proof (cases "find (\<lambda>p. p_id p = pid \<and> admits c (profiles_update_policy c p)) (profiles db)")
    case None
    with Inr res have "db' = db"
      by (auto simp: update_profile_def split: if_splits)
    with Inr res inv show ?thesis by (simp add: committed_count_def)
  next
    case (Some old)
    then have "old \<in> set (profiles db)" by (auto dest: find_Some_set)
    with inv have "user_exists db (p_id old)" by (simp add: no_orphans_def)
    moreover from Inr res Some have "p_id new = p_id old \<or> user_exists db (p_id new)"
      and db': "db' = db\<lparr>profiles := replace1 old new (profiles db)\<rparr>"
      by (auto simp: update_profile_def split: if_splits)
    ultimately have "user_exists db (p_id new)" by auto
    with inv have "\<forall>p \<in> set (replace1 old new (profiles db)). user_exists db (p_id p)"
      by (intro replace1_all) (simp_all add: no_orphans_def)
    with inv have "no_orphans db'"
      by (simp add: no_orphans_def db' user_exists_def)
    with Inr res show ?thesis by (simp add: committed_count_def)
  qed
qed

lemma no_orphans_update_review:
  assumes inv: "no_orphans db"
  shows "no_orphans (committed_count db (update_review db c rid new))"
proof (cases "update_review db c rid new")
  case (Inl e)
  with inv show ?thesis by (simp add: committed_count_def)
next
  case (Inr res)
  obtain n db' where res: "res = (n, db')" by (cases res)
  show ?thesis
  proof (cases "find (\<lambda>r. r_id r = rid \<and> admits c (reviews_update_policy c r)) (reviews db)")
    case None
    with Inr res have "db' = db"
      by (auto simp: update_review_def split: if_splits)
    with Inr res inv show ?thesis by (simp add: committed_count_def)
  next
    case (Some old)
    then have "old \<in> set (reviews db)" by (auto dest: find_Some_set)
    with inv have "user_exists db (r_user_id old)" by (simp add: no_orphans_def)
    moreover from Inr res Some
    have "r_user_id new = r_user_id old \<or> user_exists db (r_user_id new)"
      and db': "db' = db\<lparr>reviews := replace1 old new (reviews db)\<rparr>"
      by (auto simp: update_review_def split: if_splits)
    ultimately have "user_exists db (r_user_id new)" by auto
    with inv have "\<forall>r \<in> set (replace1 old new (reviews db)). user_exists db (r_user_id r)"
      by (intro replace1_all) (simp_all add: no_orphans_def)
    with inv have "no_orphans db'"
      by (simp add: no_orphans_def db' user_exists_def)
    with Inr res show ?thesis by (simp add: committed_count_def)
  qed
qed

lemma no_orphans_update_list_item:
  assumes inv: "no_orphans db"
  shows "no_orphans (committed_count db (update_list_item db c lid new))"
proof (cases "update_list_item db c lid new")
  case (Inl e)
  with inv show ?thesis by (simp add: committed_count_def)
next
  case (Inr res)
  obtain n db' where res: "res = (n, db')" by (cases res)
  show ?thesis
  proof (cases "find (\<lambda>l. l_id l = lid \<and> admits c (user_lists_update_policy c l)) (user_lists db)")
    case None
    with Inr res have "db' = db"
      by (auto simp: update_list_item_def split: if_splits)
    with Inr res inv show ?thesis by (simp add: committed_count_def)
  next
    case (Some old)
    then have "old \<in> set (user_lists db)" by (auto dest: find_Some_set)
    with inv have "user_exists db (l_user_id old)" by (simp add: no_orphans_def)
    moreover from Inr res Some
    have "l_user_id new = l_user_id old \<or> user_exists db (l_user_id new)"
      and db': "db' = db\<lparr>user_lists := replace1 old new (user_lists db)\<rparr>"
      by (auto simp: update_list_item_def split: if_splits)
    ultimately have "user_exists db (l_user_id new)" by auto
    with inv have "\<forall>l \<in> set (replace1 old new (user_lists db)). user_exists db (l_user_id l)"
      by (intro replace1_all) (simp_all add: no_orphans_def)
    with inv have "no_orphans db'"
      by (simp add: no_orphans_def db' user_exists_def)
    with Inr res show ?thesis by (simp add: committed_count_def)
  qed
qed

lemma no_orphans_exec:
  assumes inv: "no_orphans db"
  shows "no_orphans (exec db a)"
proof (cases a)
  case (CreateUser u now)
  then show ?thesis using inv by (simp add: no_orphans_create)
next
  case (DeleteUser u)
  then show ?thesis using inv by (simp add: no_orphans_delete_user)
next
  case (InsertProfile c p)
  then show ?thesis
    using inv
    by (auto simp: no_orphans_def user_exists_def committed_def dest!: insert_profile_Inr
        split: sum.splits)
next
  case (UpdateProfile c pid p)
  then show ?thesis using inv by (simp add: no_orphans_update_profile)
next
  case (DeleteProfile c pid)
  then show ?thesis
    using inv
    by (auto simp: no_orphans_def user_exists_def committed_count_def delete_profile_def
        split: sum.splits if_splits)
next
  case (InsertReview c r)
  then show ?thesis
    using inv
    by (auto simp: no_orphans_def user_exists_def committed_def dest!: insert_review_Inr
        split: sum.splits)
next
  case (UpdateReview c rid r)
  then show ?thesis using inv by (simp add: no_orphans_update_review)
next
  case (DeleteReview c rid)
  then show ?thesis
    using inv
    by (auto simp: no_orphans_def user_exists_def committed_count_def delete_review_def
        split: sum.splits if_splits)
next
  case (InsertListItem c l)
  then show ?thesis
    using inv
    by (auto simp: no_orphans_def user_exists_def committed_def dest!: insert_list_item_Inr
        split: sum.splits)
next
  case (UpdateListItem c lid l)
  then show ?thesis using inv by (simp add: no_orphans_update_list_item)
next
  case (DeleteListItem c lid)
  then show ?thesis
    using inv
    by (auto simp: no_orphans_def user_exists_def committed_count_def delete_list_item_def
        split: sum.splits if_splits)
qed

lemma no_orphans_run: "no_orphans db \<Longrightarrow> no_orphans (run db acts)"
  by (induction acts arbitrary: db) (simp_all add: no_orphans_exec)

text \<open>
  C6. Deleting the identity \<open>u\<close> is one statement. In the database it returns there is no
  row of \<open>auth.users\<close>, no profile, no review and no list item of \<open>u\<close>; no caller's read of
  the three tables returns a row of \<open>u\<close>; for every other identity \<open>v\<close> the rows of \<open>v\<close> in
  each table are what they were, so that a deletion takes no row of an identity that is
  there afterwards. And in every database of every history from the script's, that is
  in every state between two statements of any callers, each profile, review and list
  item has its identity in \<open>auth.users\<close>: a state with the identity gone and rows of it
  left does not occur.
\<close>

theorem delete_identity_cascades:
  "\<not> user_exists (exec db (DeleteUser u)) u
   \<and> (\<forall>p \<in> set (profiles (exec db (DeleteUser u))). p_id p \<noteq> u)
   \<and> (\<forall>r \<in> set (reviews (exec db (DeleteUser u))). r_user_id r \<noteq> u)
   \<and> (\<forall>l \<in> set (user_lists (exec db (DeleteUser u))). l_user_id l \<noteq> u)
   \<and> (select_profiles (exec db (DeleteUser u)) c = Inr ps \<longrightarrow> (\<forall>p \<in> set ps. p_id p \<noteq> u))
   \<and> (select_reviews (exec db (DeleteUser u)) c = Inr rs \<longrightarrow> (\<forall>r \<in> set rs. r_user_id r \<noteq> u))
   \<and> (select_user_lists (exec db (DeleteUser u)) c = Inr ls \<longrightarrow> (\<forall>l \<in> set ls. l_user_id l \<noteq> u))
   \<and> (v \<noteq> u \<longrightarrow>
        filter (\<lambda>a. au_id a = v) (users (exec db (DeleteUser u)))
          = filter (\<lambda>a. au_id a = v) (users db)
        \<and> filter (\<lambda>p. p_id p = v) (profiles (exec db (DeleteUser u)))
          = filter (\<lambda>p. p_id p = v) (profiles db)
        \<and> filter (\<lambda>r. r_user_id r = v) (reviews (exec db (DeleteUser u)))
          = filter (\<lambda>r. r_user_id r = v) (reviews db)
        \<and> filter (\<lambda>l. l_user_id l = v) (user_lists (exec db (DeleteUser u)))
          = filter (\<lambda>l. l_user_id l = v) (user_lists db))
   \<and> (user_exists (exec db (DeleteUser u)) w \<longrightarrow>
        w \<noteq> u
        \<and> filter (\<lambda>p. p_id p = w) (profiles (exec db (DeleteUser u)))
          = filter (\<lambda>p. p_id p = w) (profiles db)
        \<and> filter (\<lambda>r. r_user_id r = w) (reviews (exec db (DeleteUser u)))
          = filter (\<lambda>r. r_user_id r = w) (reviews db)
        \<and> filter (\<lambda>l. l_user_id l = w) (user_lists (exec db (DeleteUser u)))
          = filter (\<lambda>l. l_user_id l = w) (user_lists db))
   \<and> (\<forall>p \<in> set (profiles (run (script_db pre us) acts)).
         user_exists (run (script_db pre us) acts) (p_id p))
   \<and> (\<forall>r \<in> set (reviews (run (script_db pre us) acts)).
         user_exists (run (script_db pre us) acts) (r_user_id r))
   \<and> (\<forall>l \<in> set (user_lists (run (script_db pre us) acts)).
         user_exists (run (script_db pre us) acts) (l_user_id l))"
proof -
  have gone: "\<not> user_exists (exec db (DeleteUser u)) u"
    "\<forall>p \<in> set (profiles (exec db (DeleteUser u))). p_id p \<noteq> u"
    "\<forall>r \<in> set (reviews (exec db (DeleteUser u))). r_user_id r \<noteq> u"
    "\<forall>l \<in> set (user_lists (exec db (DeleteUser u))). l_user_id l \<noteq> u"
    by (simp_all add: delete_auth_user_def user_exists_def)
  have rp: "\<forall>p \<in> set ps. p_id p \<noteq> u" if "select_profiles (exec db (DeleteUser u)) c = Inr ps"
    using that gone(2) by (auto simp: select_profiles_def split: if_splits)
  have rr: "\<forall>r \<in> set rs. r_user_id r \<noteq> u" if "select_reviews (exec db (DeleteUser u)) c = Inr rs"
    using that gone(3) by (auto simp: select_reviews_def split: if_splits)
  have rl: "\<forall>l \<in> set ls. l_user_id l \<noteq> u"
    if "select_user_lists (exec db (DeleteUser u)) c = Inr ls"
    using that gone(4) by (auto simp: select_user_lists_def split: if_splits)
  have others: "filter (\<lambda>a. au_id a = x) (users (exec db (DeleteUser u)))
          = filter (\<lambda>a. au_id a = x) (users db)
        \<and> filter (\<lambda>p. p_id p = x) (profiles (exec db (DeleteUser u)))
          = filter (\<lambda>p. p_id p = x) (profiles db)
        \<and> filter (\<lambda>r. r_user_id r = x) (reviews (exec db (DeleteUser u)))
          = filter (\<lambda>r. r_user_id r = x) (reviews db)
        \<and> filter (\<lambda>l. l_user_id l = x) (user_lists (exec db (DeleteUser u)))
          = filter (\<lambda>l. l_user_id l = x) (user_lists db)" if "x \<noteq> u" for x
    using that by (auto simp: delete_auth_user_def intro!: filter_cong)
  have remains: "w \<noteq> u" if "user_exists (exec db (DeleteUser u)) w"
    using that gone(1) by auto
  have "no_orphans (script_db pre us)"
    by (simp add: no_orphans_def script_db_def)
  then have "no_orphans (run (script_db pre us) acts)"
    by (rule no_orphans_run)
  then have orph: "\<forall>p \<in> set (profiles (run (script_db pre us) acts)).
         user_exists (run (script_db pre us) acts) (p_id p)"
    "\<forall>r \<in> set (reviews (run (script_db pre us) acts)).
         user_exists (run (script_db pre us) acts) (r_user_id r)"
    "\<forall>l \<in> set (user_lists (run (script_db pre us) acts)).
         user_exists (run (script_db pre us) acts) (l_user_id l)"
    by (simp_all add: no_orphans_def)
  from gone rp rr rl others[of v] others[of w] remains orph show ?thesis
    by blast
qed

theorem delete_identity_cascades_witness:
  "users (exec sample_db (DeleteUser 1)) = [bob]
   \<and> profiles (exec sample_db (DeleteUser 1)) = [bob_profile]
   \<and> reviews (exec sample_db (DeleteUser 1)) = []
   \<and> user_lists (exec sample_db (DeleteUser 1)) = []
   \<and> select_reviews (exec sample_db (DeleteUser 1)) (Identity 2) = Inr []
   \<and> select_user_lists (exec sample_db (DeleteUser 1)) (Identity 1) = Inr []
   \<and> user_exists (exec sample_db (DeleteUser 1)) 2
   \<and> filter (\<lambda>p. p_id p = 2) (profiles (exec sample_db (DeleteUser 1)))
       = filter (\<lambda>p. p_id p = 2) (profiles sample_db)
   \<and> run (script_db [] []) (busy_history @ [DeleteUser 1])
       = \<lparr>users = [bob], profiles = [bob_profile], reviews = [bob_review],
          user_lists = [bob_watch], grants = script_grants\<rparr>
   \<and> user_exists (run (script_db [] []) (busy_history @ [DeleteUser 1])) (r_user_id bob_review)"
proof -
  have r: "run (script_db [] []) (busy_history @ [DeleteUser 1])
       = \<lparr>users = [bob], profiles = [bob_profile], reviews = [bob_review],
          user_lists = [bob_watch], grants = script_grants\<rparr>"
    by (simp add: busy_history_def sample_defs bob_review_def bob_watch_def
      policy_defs constraint_defs committed_def insert_auth_user_def handle_new_user_def
      coalesce_def split_part_1_def insert_review_def insert_list_item_def delete_auth_user_def)
  have m: "bob_review \<in> set (reviews (run (script_db [] []) (busy_history @ [DeleteUser 1])))"
    unfolding r by simp
  have e: "user_exists (exec sample_db (DeleteUser 1)) 2"
    by (simp add: sample_defs delete_auth_user_def user_exists_def)
  have o: "user_exists (run (script_db [] []) (busy_history @ [DeleteUser 1])) (r_user_id bob_review)"
    using delete_identity_cascades[where pre = "[]" and us = "[]"
        and acts = "busy_history @ [DeleteUser 1]"] m
    by blast
  have k: "filter (\<lambda>p. p_id p = 2) (profiles (exec sample_db (DeleteUser 1)))
       = filter (\<lambda>p. p_id p = 2) (profiles sample_db)"
    using delete_identity_cascades[where db = sample_db and u = 1 and w = 2] e
    by blast
  have rest: "users (exec sample_db (DeleteUser 1)) = [bob]
   \<and> profiles (exec sample_db (DeleteUser 1)) = [bob_profile]
   \<and> reviews (exec sample_db (DeleteUser 1)) = []
   \<and> user_lists (exec sample_db (DeleteUser 1)) = []
   \<and> select_reviews (exec sample_db (DeleteUser 1)) (Identity 2) = Inr []
   \<and> select_user_lists (exec sample_db (DeleteUser 1)) (Identity 1) = Inr []"
    by (simp add: sample_defs delete_auth_user_def select_reviews_def select_user_lists_def
      has_privilege_def policy_defs)
  from rest e k r o show ?thesis by blast
qed

section \<open>Uniqueness\<close>

lemma second_review_rejected:
  assumes a: "insert_review db c r1 = Inr db1" "r_user_id r2 = r_user_id r1"
      "r_media_type r2 = r_media_type r1" "r_media_id r2 = r_media_id r1" "rating_ok (r_rating r2)"
  shows "insert_review db1 c r2 = Inl UniqueViolation \<and> r1 \<in> set (reviews db1)"
proof -
  note f = insert_review_Inr[OF a(1)]
  have "reviews_conflict (reviews db1) r2"
    using f a(2-4) by (auto simp: reviews_conflict_def)
  moreover have "reviews_check r2" using f a(3,5) by (simp add: reviews_check_def)
  moreover have "admits c (reviews_insert_policy c r2)"
    using f a(2) by (simp add: reviews_insert_policy_def)
  moreover have "has_privilege db1 c Reviews" using f by (simp add: has_privilege_def)
  ultimately have "insert_review db1 c r2 = Inl UniqueViolation"
    by (simp add: insert_review_def)
  moreover have "r1 \<in> set (reviews db1)" using f by simp
  ultimately show ?thesis by simp
qed

lemma second_list_item_rejected:
  assumes a: "insert_list_item db c l1 = Inr db1" "l_user_id l2 = l_user_id l1"
      "l_list_type l2 = l_list_type l1" "l_media_type l2 = l_media_type l1"
      "l_media_id l2 = l_media_id l1"
  shows "insert_list_item db1 c l2 = Inl UniqueViolation \<and> l1 \<in> set (user_lists db1)"
proof -
  note f = insert_list_item_Inr[OF a(1)]
  have "user_lists_conflict (user_lists db1) l2"
    using f a(2-5) by (auto simp: user_lists_conflict_def)
  moreover have "user_lists_check l2" using f a(3,4) by (simp add: user_lists_check_def)
  moreover have "admits c (user_lists_insert_policy c l2)"
    using f a(2) by (simp add: user_lists_insert_policy_def)
  moreover have "has_privilege db1 c UserLists" using f by (simp add: has_privilege_def)
  ultimately have "insert_list_item db1 c l2 = Inl UniqueViolation"
    by (simp add: insert_list_item_def)
  moreover have "l1 \<in> set (user_lists db1)" using f by simp
  ultimately show ?thesis by simp
qed

lemma second_username_rejected:
  assumes a: "insert_profile db c p1 = Inr db1" "p_username p1 = Some n" "p_username p2 = Some n"
      "has_privilege db1 c2 Profiles" "admits c2 (profiles_insert_policy c2 p2)"
  shows "insert_profile db1 c2 p2 = Inl UniqueViolation \<and> p1 \<in> set (profiles db1)"
proof -
  note f = insert_profile_Inr[OF a(1)]
  have "profiles_conflict (profiles db1) p2"
    using f a(2,3) by (auto simp: profiles_conflict_def)
  with a(4,5) have "insert_profile db1 c2 p2 = Inl UniqueViolation"
    by (simp add: insert_profile_def)
  moreover have "p1 \<in> set (profiles db1)" using f by simp
  ultimately show ?thesis by simp
qed

lemma exec_failed_insert:
  "insert_review db c r = Inl e \<Longrightarrow> exec db (InsertReview c r) = db"
  "insert_list_item db c l = Inl e \<Longrightarrow> exec db (InsertListItem c l) = db"
  "insert_profile db c p = Inl e \<Longrightarrow> exec db (InsertProfile c p) = db"
  by (simp_all add: committed_def)

lemma stored_review_rejects:
  assumes "q \<in> set (reviews db)" and "r_user_id r = r_user_id q"
    and "r_media_type r = r_media_type q" and "r_media_id r = r_media_id q"
    and "has_privilege db c Reviews" and "admits c (reviews_insert_policy c r)"
    and "reviews_check r"
  shows "insert_review db c r = Inl UniqueViolation"
proof -
  have "reviews_conflict (reviews db) r"
    using assms(1-4) by (auto simp: reviews_conflict_def)
  with assms(5-7) show ?thesis by (simp add: insert_review_def)
qed

lemma stored_list_item_rejects:
  assumes "q \<in> set (user_lists db)" and "l_user_id l = l_user_id q"
    and "l_list_type l = l_list_type q" and "l_media_type l = l_media_type q"
    and "l_media_id l = l_media_id q"
    and "has_privilege db c UserLists" and "admits c (user_lists_insert_policy c l)"
    and "user_lists_check l"
  shows "insert_list_item db c l = Inl UniqueViolation"
proof -
  have "user_lists_conflict (user_lists db) l"
    using assms(1-5) by (auto simp: user_lists_conflict_def)
  with assms(6-8) show ?thesis by (simp add: insert_list_item_def)
qed

lemma stored_username_rejects:
  assumes "q \<in> set (profiles db)" and "p_username q = Some n" and "p_username p = Some n"
    and "has_privilege db c Profiles" and "admits c (profiles_insert_policy c p)"
  shows "insert_profile db c p = Inl UniqueViolation"
proof -
  have "profiles_conflict (profiles db) p"
    using assms(1-3) by (auto simp: profiles_conflict_def)
  with assms(4,5) show ?thesis by (simp add: insert_profile_def)
qed

lemma user_lists_exec:
  "set (user_lists (exec db a)) \<subseteq> set (user_lists db) \<union> {l. user_lists_check l}"
proof (cases a)
  case (CreateUser u now)
  then show ?thesis
    by (auto simp: committed_def dest!: insert_auth_user_Inr split: sum.splits)
next
  case (DeleteUser u)
  then show ?thesis by (auto simp: delete_auth_user_def)
next
  case (InsertProfile c p)
  then show ?thesis
    by (auto simp: committed_def dest!: insert_profile_Inr split: sum.splits)
next
  case (UpdateProfile c pid p)
  then show ?thesis
    by (auto simp: committed_count_def update_profile_def split: sum.splits option.splits if_splits)
next
  case (DeleteProfile c pid)
  then show ?thesis
    by (auto simp: committed_count_def delete_profile_def split: sum.splits if_splits)
next
  case (InsertReview c r)
  then show ?thesis
    by (auto simp: committed_def dest!: insert_review_Inr split: sum.splits)
next
  case (UpdateReview c rid r)
  then show ?thesis
    by (auto simp: committed_count_def update_review_def split: sum.splits option.splits if_splits)
next
  case (DeleteReview c rid)
  then show ?thesis
    by (auto simp: committed_count_def delete_review_def split: sum.splits if_splits)
next
  case (InsertListItem c l)
  then show ?thesis
    by (auto simp: committed_def dest!: insert_list_item_Inr split: sum.splits)
next
  case (UpdateListItem c lid l)
  then show ?thesis
    using set_replace1[of _ l "user_lists db"]
    by (auto simp: committed_count_def update_list_item_def split: sum.splits option.splits if_splits)
next
  case (DeleteListItem c lid)
  then show ?thesis
    by (auto simp: committed_count_def delete_list_item_def split: sum.splits if_splits)
qed

lemma user_lists_run:
  "set (user_lists (run db acts)) \<subseteq> set (user_lists db) \<union> {l. user_lists_check l}"
proof (induction acts arbitrary: db)
  case Nil
  show ?case by simp
next
  case (Cons a acts)
  have "set (user_lists (run (exec db a) acts))
      \<subseteq> set (user_lists (exec db a)) \<union> {l. user_lists_check l}"
    by (rule Cons.IH)
  with user_lists_exec[of db a] show ?case by auto
qed

lemma reached_review_rejects:
  assumes "q \<in> set (reviews (run (script_db pre us) acts))" and "r_user_id r = r_user_id q"
    and "r_media_type r = r_media_type q" and "r_media_id r = r_media_id q"
    and "1 \<le> r_rating r" and "r_rating r \<le> 10"
  shows "insert_review (run (script_db pre us) acts) (Identity (r_user_id q)) r
      = Inl UniqueViolation"
proof -
  have "reviews_check q"
    using assms(1) reviews_run[of "script_db pre us" acts] by (auto simp: script_db_def)
  with assms(3,5,6) have "reviews_check r"
    by (simp add: reviews_check_def rating_ok_def)
  moreover have "admits (Identity (r_user_id q)) (reviews_insert_policy (Identity (r_user_id q)) r)"
    using assms(2) by (simp add: admits_def reviews_insert_policy_def)
  ultimately show ?thesis
    using stored_review_rejects[OF assms(1-4) identity_privileged] by blast
qed

lemma reached_list_item_rejects:
  assumes "q \<in> set (user_lists (run (script_db pre us) acts))" and "l_user_id l = l_user_id q"
    and "l_list_type l = l_list_type q" and "l_media_type l = l_media_type q"
    and "l_media_id l = l_media_id q"
  shows "insert_list_item (run (script_db pre us) acts) (Identity (l_user_id q)) l
      = Inl UniqueViolation"
proof -
  have "user_lists_check q"
    using assms(1) user_lists_run[of "script_db pre us" acts] by (auto simp: script_db_def)
  with assms(3,4) have "user_lists_check l"
    by (simp add: user_lists_check_def)
  moreover have
    "admits (Identity (l_user_id q)) (user_lists_insert_policy (Identity (l_user_id q)) l)"
    using assms(2) by (simp add: admits_def user_lists_insert_policy_def)
  ultimately show ?thesis
    using stored_list_item_rejects[OF assms(1-5) identity_privileged] by blast
qed

lemma reached_username_rejects:
  assumes "q \<in> set (profiles (run (script_db pre us) acts))" and "p_username q = Some n"
    and "p_username p = Some n"
  shows "insert_profile (run (script_db pre us) acts) (Identity (p_id p)) p = Inl UniqueViolation"
proof -
  have "admits (Identity (p_id p)) (profiles_insert_policy (Identity (p_id p)) p)"
    by (simp add: admits_def profiles_insert_policy_def)
  then show ?thesis
    using stored_username_rejects[OF assms(1-3) identity_privileged] by blast
qed

text \<open>
  C3. Wherever a review is stored, an insert of a review with the same
  \<open>(user_id, media_type, media_id)\<close> that gets as far as the unique index (privilege held,
  policy passed, media type and rating accepted by the check constraints) fails with
  \<open>UniqueViolation\<close>, and the database after the attempt is the database before it, so the
  stored row is still there with its rating. In every database reached from the script's
  this holds for the owner with any rating in 1..10. The same holds for a list item with
  the \<open>(user_id, list_type, media_type, media_id)\<close> of a stored one, and for a profile whose
  username is set and equal to that of a stored one, inserted by any caller the insert
  policy admits. In particular a second insert right after a first successful one fails
  so.
\<close>

theorem duplicate_insert_unique_violation:
  "(insert_review db c r1 = Inr db1 \<and> r_user_id r2 = r_user_id r1 \<and>
    r_media_type r2 = r_media_type r1 \<and> r_media_id r2 = r_media_id r1 \<and>
    1 \<le> r_rating r2 \<and> r_rating r2 \<le> 10 \<longrightarrow>
      insert_review db1 c r2 = Inl UniqueViolation
      \<and> exec db1 (InsertReview c r2) = db1 \<and> r1 \<in> set (reviews db1))
   \<and> (insert_list_item db' c' l1 = Inr db1' \<and> l_user_id l2 = l_user_id l1 \<and>
      l_list_type l2 = l_list_type l1 \<and> l_media_type l2 = l_media_type l1 \<and>
      l_media_id l2 = l_media_id l1 \<longrightarrow>
      insert_list_item db1' c' l2 = Inl UniqueViolation
      \<and> exec db1' (InsertListItem c' l2) = db1' \<and> l1 \<in> set (user_lists db1'))
   \<and> (insert_profile db'' c1 p1 = Inr db1'' \<and> p_username p1 = Some n \<and> p_username p2 = Some n \<and>
      has_privilege db1'' c2 Profiles \<and> admits c2 (profiles_insert_policy c2 p2) \<longrightarrow>
      insert_profile db1'' c2 p2 = Inl UniqueViolation
      \<and> exec db1'' (InsertProfile c2 p2) = db1'' \<and> p1 \<in> set (profiles db1''))
   \<and> (rq \<in> set (reviews d) \<and> r_user_id rn = r_user_id rq \<and>
      r_media_type rn = r_media_type rq \<and> r_media_id rn = r_media_id rq \<and>
      has_privilege d k Reviews \<and> admits k (reviews_insert_policy k rn) \<and>
      r_media_type rn \<in> {''movie'', ''book'', ''show''} \<and>
      1 \<le> r_rating rn \<and> r_rating rn \<le> 10 \<longrightarrow>
      insert_review d k rn = Inl UniqueViolation \<and> exec d (InsertReview k rn) = d)
   \<and> (rq \<in> set (reviews (run (script_db pre us) acts)) \<and> r_user_id rn = r_user_id rq \<and>
      r_media_type rn = r_media_type rq \<and> r_media_id rn = r_media_id rq \<and>
      1 \<le> r_rating rn \<and> r_rating rn \<le> 10 \<longrightarrow>
      insert_review (run (script_db pre us) acts) (Identity (r_user_id rq)) rn
        = Inl UniqueViolation
      \<and> exec (run (script_db pre us) acts) (InsertReview (Identity (r_user_id rq)) rn)
        = run (script_db pre us) acts)
   \<and> (lq \<in> set (user_lists d) \<and> l_user_id ln = l_user_id lq \<and>
      l_list_type ln = l_list_type lq \<and> l_media_type ln = l_media_type lq \<and>
      l_media_id ln = l_media_id lq \<and>
      has_privilege d k UserLists \<and> admits k (user_lists_insert_policy k ln) \<and>
      l_list_type ln \<in> {''watchlist'', ''favorites'', ''reading_list'', ''completed''} \<and>
      l_media_type ln \<in> {''movie'', ''book'', ''show''} \<longrightarrow>
      insert_list_item d k ln = Inl UniqueViolation \<and> exec d (InsertListItem k ln) = d)
   \<and> (lq \<in> set (user_lists (run (script_db pre us) acts)) \<and> l_user_id ln = l_user_id lq \<and>
      l_list_type ln = l_list_type lq \<and> l_media_type ln = l_media_type lq \<and>
      l_media_id ln = l_media_id lq \<longrightarrow>
      insert_list_item (run (script_db pre us) acts) (Identity (l_user_id lq)) ln
        = Inl UniqueViolation
      \<and> exec (run (script_db pre us) acts) (InsertListItem (Identity (l_user_id lq)) ln)
        = run (script_db pre us) acts)
   \<and> (pq \<in> set (profiles d) \<and> p_username pq = Some m \<and> p_username pn = Some m \<and>
      has_privilege d k Profiles \<and> admits k (profiles_insert_policy k pn) \<longrightarrow>
      insert_profile d k pn = Inl UniqueViolation \<and> exec d (InsertProfile k pn) = d)
   \<and> (pq \<in> set (profiles (run (script_db pre us) acts)) \<and> p_username pq = Some m \<and>
      p_username pn = Some m \<longrightarrow>
      insert_profile (run (script_db pre us) acts) (Identity (p_id pn)) pn = Inl UniqueViolation
      \<and> exec (run (script_db pre us) acts) (InsertProfile (Identity (p_id pn)) pn)
        = run (script_db pre us) acts)"
proof -
  have chk_r: "reviews_check rn"
    if "r_media_type rn \<in> {''movie'', ''book'', ''show''}" "1 \<le> r_rating rn" "r_rating rn \<le> 10"
    using that by (simp add: reviews_check_def media_type_ok_def rating_ok_def)
  have chk_l: "user_lists_check ln"
    if "l_list_type ln \<in> {''watchlist'', ''favorites'', ''reading_list'', ''completed''}"
      "l_media_type ln \<in> {''movie'', ''book'', ''show''}"
    using that by (simp add: user_lists_check_def media_type_ok_def list_type_ok_def)
  have rate: "rating_ok (r_rating r2)" if "1 \<le> r_rating r2" "r_rating r2 \<le> 10"
    using that by (simp add: rating_ok_def)
  have c1: "insert_review db c r1 = Inr db1 \<and> r_user_id r2 = r_user_id r1 \<and>
    r_media_type r2 = r_media_type r1 \<and> r_media_id r2 = r_media_id r1 \<and>
    1 \<le> r_rating r2 \<and> r_rating r2 \<le> 10 \<longrightarrow>
      insert_review db1 c r2 = Inl UniqueViolation
      \<and> exec db1 (InsertReview c r2) = db1 \<and> r1 \<in> set (reviews db1)"
    using second_review_rejected[of db c r1 db1 r2] rate
      exec_failed_insert(1)[of db1 c r2 UniqueViolation] by blast
  have c2: "insert_list_item db' c' l1 = Inr db1' \<and> l_user_id l2 = l_user_id l1 \<and>
      l_list_type l2 = l_list_type l1 \<and> l_media_type l2 = l_media_type l1 \<and>
      l_media_id l2 = l_media_id l1 \<longrightarrow>
      insert_list_item db1' c' l2 = Inl UniqueViolation
      \<and> exec db1' (InsertListItem c' l2) = db1' \<and> l1 \<in> set (user_lists db1')"
    using second_list_item_rejected[of db' c' l1 db1' l2]
      exec_failed_insert(2)[of db1' c' l2 UniqueViolation] by blast
  have c3: "insert_profile db'' c1 p1 = Inr db1'' \<and> p_username p1 = Some n \<and> p_username p2 = Some n \<and>
      has_privilege db1'' c2 Profiles \<and> admits c2 (profiles_insert_policy c2 p2) \<longrightarrow>
      insert_profile db1'' c2 p2 = Inl UniqueViolation
      \<and> exec db1'' (InsertProfile c2 p2) = db1'' \<and> p1 \<in> set (profiles db1'')"
    using second_username_rejected[of db'' c1 p1 db1'' n p2 c2]
      exec_failed_insert(3)[of db1'' c2 p2 UniqueViolation] by blast
  have c4: "rq \<in> set (reviews d) \<and> r_user_id rn = r_user_id rq \<and>
      r_media_type rn = r_media_type rq \<and> r_media_id rn = r_media_id rq \<and>
      has_privilege d k Reviews \<and> admits k (reviews_insert_policy k rn) \<and>
      r_media_type rn \<in> {''movie'', ''book'', ''show''} \<and>
      1 \<le> r_rating rn \<and> r_rating rn \<le> 10 \<longrightarrow>
      insert_review d k rn = Inl UniqueViolation \<and> exec d (InsertReview k rn) = d"
    using stored_review_rejects[of rq d rn k] chk_r
      exec_failed_insert(1)[of d k rn UniqueViolation] by blast
  have c5: "rq \<in> set (reviews (run (script_db pre us) acts)) \<and> r_user_id rn = r_user_id rq \<and>
      r_media_type rn = r_media_type rq \<and> r_media_id rn = r_media_id rq \<and>
      1 \<le> r_rating rn \<and> r_rating rn \<le> 10 \<longrightarrow>
      insert_review (run (script_db pre us) acts) (Identity (r_user_id rq)) rn
        = Inl UniqueViolation
      \<and> exec (run (script_db pre us) acts) (InsertReview (Identity (r_user_id rq)) rn)
        = run (script_db pre us) acts"
    using reached_review_rejects[of rq pre us acts rn]
      exec_failed_insert(1)[of "run (script_db pre us) acts" "Identity (r_user_id rq)" rn
        UniqueViolation] by blast
  have c6: "lq \<in> set (user_lists d) \<and> l_user_id ln = l_user_id lq \<and>
      l_list_type ln = l_list_type lq \<and> l_media_type ln = l_media_type lq \<and>
      l_media_id ln = l_media_id lq \<and>
      has_privilege d k UserLists \<and> admits k (user_lists_insert_policy k ln) \<and>
      l_list_type ln \<in> {''watchlist'', ''favorites'', ''reading_list'', ''completed''} \<and>
      l_media_type ln \<in> {''movie'', ''book'', ''show''} \<longrightarrow>
      insert_list_item d k ln = Inl UniqueViolation \<and> exec d (InsertListItem k ln) = d"
    using stored_list_item_rejects[of lq d ln k] chk_l
      exec_failed_insert(2)[of d k ln UniqueViolation] by blast
  have c7: "lq \<in> set (user_lists (run (script_db pre us) acts)) \<and> l_user_id ln = l_user_id lq \<and>
      l_list_type ln = l_list_type lq \<and> l_media_type ln = l_media_type lq \<and>
      l_media_id ln = l_media_id lq \<longrightarrow>
      insert_list_item (run (script_db pre us) acts) (Identity (l_user_id lq)) ln
        = Inl UniqueViolation
      \<and> exec (run (script_db pre us) acts) (InsertListItem (Identity (l_user_id lq)) ln)
        = run (script_db pre us) acts"
    using reached_list_item_rejects[of lq pre us acts ln]
      exec_failed_insert(2)[of "run (script_db pre us) acts" "Identity (l_user_id lq)" ln
        UniqueViolation] by blast
  have c8: "pq \<in> set (profiles d) \<and> p_username pq = Some m \<and> p_username pn = Some m \<and>
      has_privilege d k Profiles \<and> admits k (profiles_insert_policy k pn) \<longrightarrow>
      insert_profile d k pn = Inl UniqueViolation \<and> exec d (InsertProfile k pn) = d"
    using stored_username_rejects[of pq d m pn k]
      exec_failed_insert(3)[of d k pn UniqueViolation] by blast
  have c9: "pq \<in> set (profiles (run (script_db pre us) acts)) \<and> p_username pq = Some m \<and>
      p_username pn = Some m \<longrightarrow>
      insert_profile (run (script_db pre us) acts) (Identity (p_id pn)) pn = Inl UniqueViolation
      \<and> exec (run (script_db pre us) acts) (InsertProfile (Identity (p_id pn)) pn)
        = run (script_db pre us) acts"
    using reached_username_rejects[of pq pre us acts m pn]
      exec_failed_insert(3)[of "run (script_db pre us) acts" "Identity (p_id pn)" pn
        UniqueViolation] by blast
  show ?thesis
    by (intro conjI c1 c2 c3 c4 c5 c6 c7 c8 c9)
qed

lemma busy_history_run: "run (script_db [] []) busy_history = busy_db"
  by (simp add: busy_history_def busy_db_def sample_defs bob_review_def bob_watch_def
      policy_defs constraint_defs committed_def insert_auth_user_def handle_new_user_def
      coalesce_def split_part_1_def insert_review_def insert_list_item_def)

theorem duplicate_insert_unique_violation_witness:
  "insert_review fresh_db (Identity 1) alice_review = Inr (fresh_db\<lparr>reviews := [alice_review]\<rparr>)
   \<and> insert_review (fresh_db\<lparr>reviews := [alice_review]\<rparr>) (Identity 1)
        (alice_review\<lparr>r_id := 11, r_rating := 5\<rparr>) = Inl UniqueViolation
   \<and> reviews (exec (fresh_db\<lparr>reviews := [alice_review]\<rparr>)
        (InsertReview (Identity 1) (alice_review\<lparr>r_id := 11, r_rating := 5\<rparr>))) = [alice_review]
   \<and> r_rating alice_review = 8
   \<and> insert_list_item fresh_db (Identity 1) alice_watch = Inr (fresh_db\<lparr>user_lists := [alice_watch]\<rparr>)
   \<and> insert_list_item (fresh_db\<lparr>user_lists := [alice_watch]\<rparr>) (Identity 1)
        (alice_watch\<lparr>l_id := 21, l_title := ''Inception (2010)''\<rparr>) = Inl UniqueViolation
   \<and> insert_profile unprovisioned_db (Identity 1) alice_profile
        = Inr (unprovisioned_db\<lparr>profiles := [alice_profile]\<rparr>)
   \<and> insert_profile (unprovisioned_db\<lparr>profiles := [alice_profile]\<rparr>) (Identity 2)
        (bob_profile\<lparr>p_username := Some ''alice''\<rparr>) = Inl UniqueViolation
   \<and> reviews (run (script_db [] []) busy_history) = [alice_review, bob_review]
   \<and> user_lists (run (script_db [] []) busy_history) = [alice_watch, bob_watch]
   \<and> profiles (run (script_db [] []) busy_history) = [alice_profile, bob_profile]
   \<and> insert_review (run (script_db [] []) busy_history) (Identity 1)
        (alice_review\<lparr>r_id := 11, r_rating := 5\<rparr>) = Inl UniqueViolation
   \<and> exec (run (script_db [] []) busy_history)
        (InsertReview (Identity 1) (alice_review\<lparr>r_id := 11, r_rating := 5\<rparr>))
        = run (script_db [] []) busy_history
   \<and> insert_list_item (run (script_db [] []) busy_history) (Identity 1)
        (alice_watch\<lparr>l_id := 21, l_title := ''Inception (2010)''\<rparr>) = Inl UniqueViolation
   \<and> insert_profile (run (script_db [] []) busy_history) (Identity 2)
        (bob_profile\<lparr>p_username := Some ''alice''\<rparr>) = Inl UniqueViolation
   \<and> insert_review busy_db Service (alice_review\<lparr>r_id := 11, r_rating := 5\<rparr>)
        = Inl UniqueViolation"
proof -
  let ?r = "alice_review\<lparr>r_id := 11, r_rating := 5\<rparr>"
  let ?l = "alice_watch\<lparr>l_id := 21, l_title := ''Inception (2010)''\<rparr>"
  let ?p = "bob_profile\<lparr>p_username := Some ''alice''\<rparr>"
  have first: "insert_review fresh_db (Identity 1) alice_review
      = Inr (fresh_db\<lparr>reviews := [alice_review]\<rparr>)"
    "insert_list_item fresh_db (Identity 1) alice_watch
      = Inr (fresh_db\<lparr>user_lists := [alice_watch]\<rparr>)"
    "insert_profile unprovisioned_db (Identity 1) alice_profile
      = Inr (unprovisioned_db\<lparr>profiles := [alice_profile]\<rparr>)"
    by (simp_all add: sample_defs policy_defs constraint_defs insert_review_def
        insert_list_item_def insert_profile_def)
  have stored: "alice_review \<in> set (reviews (run (script_db [] []) busy_history))"
    "alice_watch \<in> set (user_lists (run (script_db [] []) busy_history))"
    "alice_profile \<in> set (profiles (run (script_db [] []) busy_history))"
    "alice_review \<in> set (reviews busy_db)"
    by (simp_all add: busy_history_run) (simp_all add: busy_db_def)
  have keys: "r_user_id ?r = r_user_id alice_review" "r_media_type ?r = r_media_type alice_review"
    "r_media_id ?r = r_media_id alice_review" "1 \<le> r_rating ?r" "r_rating ?r \<le> 10"
    "r_media_type ?r \<in> {''movie'', ''book'', ''show''}"
    "l_user_id ?l = l_user_id alice_watch" "l_list_type ?l = l_list_type alice_watch"
    "l_media_type ?l = l_media_type alice_watch" "l_media_id ?l = l_media_id alice_watch"
    "p_username alice_profile = Some ''alice''" "p_username ?p = Some ''alice''"
    "r_user_id alice_review = 1" "l_user_id alice_watch = 1" "p_id ?p = 2"
    "r_rating alice_review = 8"
    by (simp_all add: alice_review_def alice_watch_def alice_profile_def bob_profile_def)
  have svc: "has_privilege busy_db Service Reviews"
    "admits Service (reviews_insert_policy Service ?r)"
    "has_privilege (unprovisioned_db\<lparr>profiles := [alice_profile]\<rparr>) (Identity 2) Profiles"
    "admits (Identity 2) (profiles_insert_policy (Identity 2) ?p)"
    by (simp_all add: has_privilege_def busy_db_def unprovisioned_db_def script_grants_def
        admits_def profiles_insert_policy_def bob_profile_def)
  have state: "reviews (run (script_db [] []) busy_history) = [alice_review, bob_review]"
    "user_lists (run (script_db [] []) busy_history) = [alice_watch, bob_watch]"
    "profiles (run (script_db [] []) busy_history) = [alice_profile, bob_profile]"
    by (simp_all add: busy_history_run) (simp_all add: busy_db_def)
  note t1 = duplicate_insert_unique_violation[where db = fresh_db and c = "Identity 1"
      and ?r1.0 = alice_review and ?db1.0 = "fresh_db\<lparr>reviews := [alice_review]\<rparr>" and ?r2.0 = ?r
      and db' = fresh_db and c' = "Identity 1" and ?l1.0 = alice_watch
      and db1' = "fresh_db\<lparr>user_lists := [alice_watch]\<rparr>" and ?l2.0 = ?l
      and db'' = unprovisioned_db and ?c1.0 = "Identity 1" and ?p1.0 = alice_profile
      and db1'' = "unprovisioned_db\<lparr>profiles := [alice_profile]\<rparr>" and n = "''alice''"
      and ?p2.0 = ?p and ?c2.0 = "Identity 2"
      and rq = alice_review and rn = ?r and d = busy_db and k = Service
      and pre = "[]" and us = "[]" and acts = busy_history
      and lq = alice_watch and ln = ?l and pq = alice_profile and pn = ?p and m = "''alice''"]
  have old: "insert_review (fresh_db\<lparr>reviews := [alice_review]\<rparr>) (Identity 1) ?r
        = Inl UniqueViolation
      \<and> exec (fresh_db\<lparr>reviews := [alice_review]\<rparr>) (InsertReview (Identity 1) ?r)
        = fresh_db\<lparr>reviews := [alice_review]\<rparr>
      \<and> insert_list_item (fresh_db\<lparr>user_lists := [alice_watch]\<rparr>) (Identity 1) ?l
        = Inl UniqueViolation
      \<and> insert_profile (unprovisioned_db\<lparr>profiles := [alice_profile]\<rparr>) (Identity 2) ?p
        = Inl UniqueViolation"
    using t1 first keys(1-12) svc by blast
  have new: "insert_review (run (script_db [] []) busy_history)
          (Identity (r_user_id alice_review)) ?r = Inl UniqueViolation
      \<and> exec (run (script_db [] []) busy_history)
          (InsertReview (Identity (r_user_id alice_review)) ?r)
        = run (script_db [] []) busy_history
      \<and> insert_list_item (run (script_db [] []) busy_history)
          (Identity (l_user_id alice_watch)) ?l = Inl UniqueViolation
      \<and> insert_profile (run (script_db [] []) busy_history) (Identity (p_id ?p)) ?p
        = Inl UniqueViolation
      \<and> insert_review busy_db Service ?r = Inl UniqueViolation"
    using t1 stored keys(1-12) svc by blast
  have kept: "reviews (exec (fresh_db\<lparr>reviews := [alice_review]\<rparr>)
        (InsertReview (Identity 1) ?r)) = [alice_review]"
    using old by (simp add: committed_Inl)
  from new have new': "insert_review (run (script_db [] []) busy_history) (Identity 1) ?r
        = Inl UniqueViolation
      \<and> exec (run (script_db [] []) busy_history) (InsertReview (Identity 1) ?r)
        = run (script_db [] []) busy_history
      \<and> insert_list_item (run (script_db [] []) busy_history) (Identity 1) ?l
        = Inl UniqueViolation
      \<and> insert_profile (run (script_db [] []) busy_history) (Identity 2) ?p
        = Inl UniqueViolation
      \<and> insert_review busy_db Service ?r = Inl UniqueViolation"
    unfolding keys(13,14,15) .
  from old new' first state keys(16) kept show ?thesis
    by blast
qed

section \<open>One media item in several lists\<close>

lemma insert_list_item_succeeds:
  assumes "has_privilege db c UserLists" and "admits c (user_lists_insert_policy c l)"
    and "user_lists_check l" and "\<not> user_lists_conflict (user_lists db) l"
    and "user_exists db (l_user_id l)"
  shows "insert_list_item db c l = Inr (db\<lparr>user_lists := user_lists db @ [l]\<rparr>)"
  using assms by (simp add: insert_list_item_def)

lemma insert_list_item_conflict:
  assumes "has_privilege db c UserLists" and "admits c (user_lists_insert_policy c l)"
    and "user_lists_check l" and "user_lists_conflict (user_lists db) l"
  shows "insert_list_item db c l = Inl UniqueViolation"
  using assms by (simp add: insert_list_item_def)

text \<open>
  C8. After a list item of an identity for a media item has been inserted, an item of
  the same identity for the same media item in another list type (one of the four, with
  an unused id, not yet held by the identity in that list type) is inserted as well, and
  both are stored. A further insert of that media item into either of the two list types
  fails with \<open>UniqueViolation\<close>.
\<close>

theorem same_media_in_several_lists:
  "insert_list_item db c l1 = Inr db1
   \<and> l_user_id l2 = l_user_id l1 \<and> l_media_type l2 = l_media_type l1
   \<and> l_media_id l2 = l_media_id l1 \<and> l_list_type l2 \<noteq> l_list_type l1
   \<and> l_list_type l2 \<in> {''watchlist'', ''favorites'', ''reading_list'', ''completed''}
   \<and> \<not> user_lists_conflict (user_lists db) l2 \<and> l_id l2 \<noteq> l_id l1 \<longrightarrow>
     insert_list_item db1 c l2 = Inr (db1\<lparr>user_lists := user_lists db1 @ [l2]\<rparr>)
     \<and> l1 \<in> set (user_lists db1)
     \<and> (l_user_id l3 = l_user_id l1 \<and> l_media_type l3 = l_media_type l1
         \<and> l_media_id l3 = l_media_id l1
         \<and> (l_list_type l3 = l_list_type l1 \<or> l_list_type l3 = l_list_type l2) \<longrightarrow>
           insert_list_item (db1\<lparr>user_lists := user_lists db1 @ [l2]\<rparr>) c l3
             = Inl UniqueViolation)"
proof (intro impI)
  assume h: "insert_list_item db c l1 = Inr db1
   \<and> l_user_id l2 = l_user_id l1 \<and> l_media_type l2 = l_media_type l1
   \<and> l_media_id l2 = l_media_id l1 \<and> l_list_type l2 \<noteq> l_list_type l1
   \<and> l_list_type l2 \<in> {''watchlist'', ''favorites'', ''reading_list'', ''completed''}
   \<and> \<not> user_lists_conflict (user_lists db) l2 \<and> l_id l2 \<noteq> l_id l1"
  then have first: "insert_list_item db c l1 = Inr db1" by simp
  note f = insert_list_item_Inr[OF first]
  let ?db2 = "db1\<lparr>user_lists := user_lists db1 @ [l2]\<rparr>"
  have db1: "user_lists db1 = user_lists db @ [l1]" "users db1 = users db" "grants db1 = grants db"
    using f by simp_all
  have priv: "has_privilege db1 c UserLists" "has_privilege ?db2 c UserLists"
    using f by (simp_all add: has_privilege_def)
  have owner: "auth_uid c = Some (l_user_id l1) \<or> bypass_rls c"
    using f by (auto simp: admits_def user_lists_insert_policy_def)
  have pol2: "admits c (user_lists_insert_policy c l2)"
    using owner h by (auto simp: admits_def user_lists_insert_policy_def)
  have chk1: "list_type_ok (l_list_type l1)" "media_type_ok (l_media_type l1)"
    using f by (simp_all add: user_lists_check_def)
  have chk2: "user_lists_check l2"
    using h chk1 by (simp add: user_lists_check_def list_type_ok_def)
  have free2: "\<not> user_lists_conflict (user_lists db1) l2"
    using h by (auto simp: db1 user_lists_conflict_def)
  have ex2: "user_exists db1 (l_user_id l2)"
    using f h by (simp add: user_exists_def)
  have second: "insert_list_item db1 c l2 = Inr ?db2"
    using insert_list_item_succeeds[OF priv(1) pol2 chk2 free2 ex2] .
  have third: "insert_list_item ?db2 c l3 = Inl UniqueViolation"
    if t: "l_user_id l3 = l_user_id l1 \<and> l_media_type l3 = l_media_type l1
         \<and> l_media_id l3 = l_media_id l1
         \<and> (l_list_type l3 = l_list_type l1 \<or> l_list_type l3 = l_list_type l2)"
  proof -
    have "admits c (user_lists_insert_policy c l3)"
      using owner t by (auto simp: admits_def user_lists_insert_policy_def)
    moreover have "user_lists_check l3"
      using t chk1 chk2 by (auto simp: user_lists_check_def)
    moreover have "user_lists_conflict (user_lists ?db2) l3"
      using t h by (auto simp: db1 user_lists_conflict_def)
    ultimately show ?thesis
      using insert_list_item_conflict[OF priv(2)] by blast
  qed
  have "l1 \<in> set (user_lists db1)" by (simp add: db1)
  with second third show "insert_list_item db1 c l2 = Inr ?db2
     \<and> l1 \<in> set (user_lists db1)
     \<and> (l_user_id l3 = l_user_id l1 \<and> l_media_type l3 = l_media_type l1
         \<and> l_media_id l3 = l_media_id l1
         \<and> (l_list_type l3 = l_list_type l1 \<or> l_list_type l3 = l_list_type l2) \<longrightarrow>
           insert_list_item ?db2 c l3 = Inl UniqueViolation)"
    by blast
qed

theorem same_media_in_several_lists_witness:
  "insert_list_item fresh_db (Identity 1) alice_watch
     = Inr (fresh_db\<lparr>user_lists := [alice_watch]\<rparr>)
   \<and> insert_list_item (fresh_db\<lparr>user_lists := [alice_watch]\<rparr>) (Identity 1)
        (alice_watch\<lparr>l_id := 21, l_list_type := ''favorites''\<rparr>)
     = Inr (fresh_db\<lparr>user_lists := [alice_watch,
              alice_watch\<lparr>l_id := 21, l_list_type := ''favorites''\<rparr>]\<rparr>)
   \<and> insert_list_item (fresh_db\<lparr>user_lists := [alice_watch,
              alice_watch\<lparr>l_id := 21, l_list_type := ''favorites''\<rparr>]\<rparr>) (Identity 1)
        (alice_watch\<lparr>l_id := 22\<rparr>)
     = Inl UniqueViolation"
proof -
  have s1: "insert_list_item fresh_db (Identity 1) alice_watch
     = Inr (fresh_db\<lparr>user_lists := [alice_watch]\<rparr>)"
    by (simp add: insert_list_item_def sample_defs policy_defs constraint_defs)
  have h: "l_list_type (alice_watch\<lparr>l_id := 21, l_list_type := ''favorites''\<rparr>)
      \<noteq> l_list_type alice_watch"
    "l_list_type (alice_watch\<lparr>l_id := 21, l_list_type := ''favorites''\<rparr>)
      \<in> {''watchlist'', ''favorites'', ''reading_list'', ''completed''}"
    "\<not> user_lists_conflict (user_lists fresh_db)
        (alice_watch\<lparr>l_id := 21, l_list_type := ''favorites''\<rparr>)"
    "l_id (alice_watch\<lparr>l_id := 21, l_list_type := ''favorites''\<rparr>) \<noteq> l_id alice_watch"
    by (simp_all add: alice_watch_def fresh_db_def user_lists_conflict_def)
  show ?thesis
    using same_media_in_several_lists[of fresh_db "Identity 1" alice_watch
        "fresh_db\<lparr>user_lists := [alice_watch]\<rparr>"
        "alice_watch\<lparr>l_id := 21, l_list_type := ''favorites''\<rparr>" "alice_watch\<lparr>l_id := 22\<rparr>"]
      s1 h
    by simp
qed

section \<open>Every identity has its profile\<close>

lemma count_replace1:
  "f new = f old \<Longrightarrow>
   length (filter (\<lambda>x. f x = k) (replace1 old new xs)) = length (filter (\<lambda>x. f x = k) xs)"
  by (induction xs) auto

lemma provisioned_create:
  assumes inv: "provisioned db" and ok: "insert_auth_user db a now = Inr db'"
  shows "provisioned db'"
proof -
  let ?p = "\<lparr>p_id = au_id a,
             p_username = coalesce (au_meta_username a)
                            (map_option (\<lambda>e. split_part_1 e CHR ''@'') (au_email a)),
             p_avatar_url = None, p_created_at = Some now, p_updated_at = Some now\<rparr>"
  note f = insert_auth_user_Inr[OF ok]
  have new_id: "\<forall>x \<in> set (users db). au_id x \<noteq> au_id a"
    using f by (auto simp: user_exists_def)
  have no_profile: "filter (\<lambda>p. p_id p = au_id a) (profiles db) = []"
    using f by (auto simp: profiles_conflict_def filter_empty_conv)
  have "length (filter (\<lambda>p. p_id p = au_id x) (profiles db @ [?p])) = 1"
    if "x \<in> set (users db @ [a])" for x
  proof (cases "x \<in> set (users db)")
    case True
    with new_id have "au_id a \<noteq> au_id x" by auto
    moreover from True inv have "length (filter (\<lambda>p. p_id p = au_id x) (profiles db)) = 1"
      by (simp add: provisioned_def)
    ultimately show ?thesis by simp
  next
    case False
    with that have "x = a" by simp
    with no_profile show ?thesis by simp
  qed
  then show ?thesis using f by (simp add: provisioned_def)
qed

lemma provisioned_delete_user:
  assumes "provisioned db"
  shows "provisioned (delete_auth_user db u)"
proof -
  have "filter (\<lambda>p. p_id p = au_id x) (filter (\<lambda>p. p_id p \<noteq> u) (profiles db))
      = filter (\<lambda>p. p_id p = au_id x) (profiles db)" if "au_id x \<noteq> u" for x :: auth_user
    using that by (auto intro!: filter_cong)
  then show ?thesis
    using assms by (simp add: provisioned_def delete_auth_user_def del: filter_filter)
qed

lemma provisioned_insert_profile:
  assumes inv: "provisioned db"
  shows "committed db (insert_profile db c p) = db"
proof (cases "insert_profile db c p")
  case (Inl e)
  then show ?thesis by (simp add: committed_def)
next
  case (Inr db')
  note f = insert_profile_Inr[OF Inr]
  then obtain x where x: "x \<in> set (users db)" "au_id x = p_id p"
    by (auto simp: user_exists_def)
  with inv have "length (filter (\<lambda>q. p_id q = p_id p) (profiles db)) = 1"
    by (auto simp: provisioned_def)
  then have "filter (\<lambda>q. p_id q = p_id p) (profiles db) \<noteq> []" by auto
  then obtain q where "q \<in> set (profiles db)" "p_id q = p_id p"
    by (auto simp: filter_empty_conv)
  then have "profiles_conflict (profiles db) p"
    by (auto simp: profiles_conflict_def)
  with f show ?thesis by simp
qed

lemma provisioned_update_profile:
  assumes inv: "provisioned db"
  shows "provisioned (committed_count db (update_profile db c pid new))"
proof (cases "update_profile db c pid new")
  case (Inl e)
  with inv show ?thesis by (simp add: committed_count_def)
next
  case (Inr res)
  obtain n db' where res: "res = (n, db')" by (cases res)
  show ?thesis
  proof (cases "find (\<lambda>p. p_id p = pid \<and> admits c (profiles_update_policy c p)) (profiles db)")
    case None
    with Inr res have "db' = db"
      by (auto simp: update_profile_def split: if_splits)
    with Inr res inv show ?thesis by (simp add: committed_count_def)
  next
    case (Some old)
    from Inr res Some have free: "\<not> profiles_conflict (remove1 old (profiles db)) new"
      and fk: "p_id new = p_id old \<or> user_exists db (p_id new)"
      and db': "db' = db\<lparr>profiles := replace1 old new (profiles db)\<rparr>"
      by (auto simp: update_profile_def split: if_splits)
    have same: "p_id new = p_id old"
    proof (rule ccontr)
      assume differ: "p_id new \<noteq> p_id old"
      with fk obtain x where "x \<in> set (users db)" "au_id x = p_id new"
        by (auto simp: user_exists_def)
      with inv have "length (filter (\<lambda>q. p_id q = p_id new) (profiles db)) = 1"
        by (auto simp: provisioned_def)
      then have "filter (\<lambda>q. p_id q = p_id new) (profiles db) \<noteq> []" by auto
      then obtain q where q: "q \<in> set (profiles db)" "p_id q = p_id new"
        by (auto simp: filter_empty_conv)
      with differ have "q \<noteq> old" by auto
      with q(1) have "q \<in> set (remove1 old (profiles db))" by simp
      with q(2) have "profiles_conflict (remove1 old (profiles db)) new"
        by (auto simp: profiles_conflict_def)
      with free show False by simp
    qed
    then have "length (filter (\<lambda>p. p_id p = k) (replace1 old new (profiles db)))
        = length (filter (\<lambda>p. p_id p = k) (profiles db))" for k
      by (rule count_replace1)
    with inv have "provisioned db'" by (simp add: provisioned_def db')
    with Inr res show ?thesis by (simp add: committed_count_def)
  qed
qed

lemma provisioned_delete_profile:
  assumes "provisioned db" and "\<not> bypass_rls c"
  shows "provisioned (committed_count db (delete_profile db c pid))"
  using assms
  by (simp add: provisioned_def committed_count_def delete_profile_def admits_def
      profiles_delete_policy_def)

lemma provisioned_exec:
  assumes inv: "provisioned db" and a: "\<not> unrestricted_profile_delete a"
  shows "provisioned (exec db a)"
proof (cases a)
  case (CreateUser u now)
  then show ?thesis
    using inv provisioned_create[OF inv]
    by (cases "insert_auth_user db u now") (simp_all add: committed_def)
next
  case (DeleteUser u)
  then show ?thesis using inv by (simp add: provisioned_delete_user)
next
  case (InsertProfile c p)
  then show ?thesis
    using inv by (simp add: provisioned_insert_profile)
next
  case (UpdateProfile c pid p)
  then show ?thesis using inv by (simp add: provisioned_update_profile)
next
  case (DeleteProfile c pid)
  then show ?thesis using inv a by (simp add: provisioned_delete_profile)
next
  case (InsertReview c r)
  then show ?thesis
    using inv
    by (auto simp: provisioned_def committed_def dest!: insert_review_Inr split: sum.splits)
next
  case (UpdateReview c rid r)
  then show ?thesis
    using inv
    by (auto simp: provisioned_def committed_count_def update_review_def
        split: sum.splits option.splits if_splits)
next
  case (DeleteReview c rid)
  then show ?thesis
    using inv
    by (auto simp: provisioned_def committed_count_def delete_review_def split: sum.splits if_splits)
next
  case (InsertListItem c l)
  then show ?thesis
    using inv
    by (auto simp: provisioned_def committed_def dest!: insert_list_item_Inr split: sum.splits)
next
  case (UpdateListItem c lid l)
  then show ?thesis
    using inv
    by (auto simp: provisioned_def committed_count_def update_list_item_def
        split: sum.splits option.splits if_splits)
next
  case (DeleteListItem c lid)
  then show ?thesis
    using inv
    by (auto simp: provisioned_def committed_count_def delete_list_item_def
        split: sum.splits if_splits)
qed

lemma provisioned_run:
  "provisioned db \<Longrightarrow> \<forall>a \<in> set acts. \<not> unrestricted_profile_delete a \<Longrightarrow>
   provisioned (run db acts)"
  by (induction acts arbitrary: db) (simp_all add: provisioned_exec)

text \<open>
  C4, as the script has it. Starting from the script's database with no identity in
  \<open>auth.users\<close>, in every database reached by statements of any callers among which no
  caller exempt from row level security deletes a profile, every identity has exactly one
  profile whose \<open>id\<close> is its own. The creation of an identity that succeeds returns a
  database with both the identity and its profile; and when the trigger function fails,
  the creation fails with the same error and the database stays as it was.
\<close>

theorem every_identity_has_one_profile:
  "((\<forall>a \<in> set acts. \<not> unrestricted_profile_delete a) \<longrightarrow>
      (\<forall>u \<in> set (users (run (script_db pre []) acts)).
         length (filter (\<lambda>p. p_id p = au_id u) (profiles (run (script_db pre []) acts))) = 1))
   \<and> (insert_auth_user db a now = Inr db' \<longrightarrow>
        a \<in> set (users db') \<and> (\<exists>p \<in> set (profiles db'). p_id p = au_id a))
   \<and> (\<not> user_exists db (au_id a)
       \<and> handle_new_user (db\<lparr>users := users db @ [a]\<rparr>) a now = Inl e \<longrightarrow>
        insert_auth_user db a now = Inl e \<and> exec db (CreateUser a now) = db)"
proof -
  have "provisioned (script_db pre [])"
    by (simp add: provisioned_def script_db_def)
  then have inv: "provisioned (run (script_db pre []) acts)"
    if "\<forall>a \<in> set acts. \<not> unrestricted_profile_delete a"
    using that by (rule provisioned_run)
  have both: "a \<in> set (users db') \<and> (\<exists>p \<in> set (profiles db'). p_id p = au_id a)"
    if "insert_auth_user db a now = Inr db'"
    using insert_auth_user_Inr[OF that] by auto
  have abort: "insert_auth_user db a now = Inl e \<and> exec db (CreateUser a now) = db"
    if "\<not> user_exists db (au_id a)
       \<and> handle_new_user (db\<lparr>users := users db @ [a]\<rparr>) a now = Inl e"
    using that by (simp add: insert_auth_user_def committed_def)
  from inv both abort show ?thesis
    unfolding provisioned_def by blast
qed

lemma sample_history_run:
  "run (script_db [] []) sample_history
     = \<lparr>users = [alice], profiles = [alice_profile\<lparr>p_avatar_url := Some ''a.png''\<rparr>],
        reviews = [], user_lists = [], grants = script_grants\<rparr>"
  by (simp add: sample_history_def sample_defs policy_defs constraint_defs committed_def
      committed_count_def insert_auth_user_def handle_new_user_def coalesce_def split_part_1_def
      update_profile_def delete_profile_def insert_profile_def delete_auth_user_def)

theorem every_identity_has_one_profile_witness:
  "users (run (script_db [] []) sample_history) = [alice]
   \<and> profiles (run (script_db [] []) sample_history)
        = [alice_profile\<lparr>p_avatar_url := Some ''a.png''\<rparr>]
   \<and> length (filter (\<lambda>p. p_id p = au_id alice) (profiles (run (script_db [] []) sample_history))) = 1
   \<and> insert_auth_user (script_db [] []) alice 100
        = Inr ((script_db [] [])\<lparr>users := [alice], profiles := [alice_profile]\<rparr>)
   \<and> handle_new_user (sample_db\<lparr>users := users sample_db @
          [\<lparr>au_id = 5, au_email = Some ''alice@elsewhere.org'', au_meta_username = None\<rparr>]\<rparr>)
        \<lparr>au_id = 5, au_email = Some ''alice@elsewhere.org'', au_meta_username = None\<rparr> 130
        = Inl UniqueViolation
   \<and> exec sample_db
        (CreateUser \<lparr>au_id = 5, au_email = Some ''alice@elsewhere.org'', au_meta_username = None\<rparr> 130)
        = sample_db"
proof -
  have h: "\<forall>a \<in> set sample_history. \<not> unrestricted_profile_delete a"
    by (simp add: sample_history_def)
  have u: "alice \<in> set (users (run (script_db [] []) sample_history))"
    by (simp add: sample_history_run)
  have one: "length (filter (\<lambda>p. p_id p = au_id alice)
      (profiles (run (script_db [] []) sample_history))) = 1"
    using every_identity_has_one_profile[where acts = sample_history and pre = "[]"] h u
    by blast
  have s: "insert_auth_user (script_db [] []) alice 100
        = Inr ((script_db [] [])\<lparr>users := [alice], profiles := [alice_profile]\<rparr>)"
    by (simp add: insert_auth_user_def handle_new_user_def sample_defs constraint_defs
        coalesce_def split_part_1_def)
  let ?a = "\<lparr>au_id = 5, au_email = Some ''alice@elsewhere.org'', au_meta_username = None\<rparr>"
  have t: "\<not> user_exists sample_db (au_id ?a)"
    "handle_new_user (sample_db\<lparr>users := users sample_db @ [?a]\<rparr>) ?a 130 = Inl UniqueViolation"
    by (simp_all add: handle_new_user_def sample_defs constraint_defs coalesce_def split_part_1_def)
  have ab: "exec sample_db (CreateUser ?a 130) = sample_db"
    using every_identity_has_one_profile[where db = sample_db and a = ?a
        and now = 130 and e = UniqueViolation] t
    by blast
  from one s t(2) ab show ?thesis
    by (simp add: sample_history_run)
qed

text \<open>
  C4 as stated fails. \<open>service_role\<close> holds every privilege on \<open>profiles\<close> and is not subject
  to its policies, so it can delete the profile of an identity, which then exists without
  a profile; and an identity that was in \<open>auth.users\<close> when the script ran has no profile,
  since the trigger fires on inserts only.
\<close>

theorem service_profile_delete_counterexample:
  "users (run (script_db [] []) [CreateUser alice 100, DeleteProfile Service 1]) = [alice]
   \<and> profiles (run (script_db [] []) [CreateUser alice 100, DeleteProfile Service 1]) = []
   \<and> \<not> provisioned (run (script_db [] []) [CreateUser alice 100, DeleteProfile Service 1])
   \<and> users (run (script_db [] [alice]) []) = [alice]
   \<and> profiles (run (script_db [] [alice]) []) = []
   \<and> \<not> provisioned (run (script_db [] [alice]) [])"
  by (simp add: sample_defs policy_defs constraint_defs committed_def
      committed_count_def insert_auth_user_def handle_new_user_def coalesce_def split_part_1_def
      delete_profile_def provisioned_def)

end
